theory Spec2Isabelle
  imports Complex_Main
begin

section \<open>The water simulation of script.js\<close>

text \<open>
  The class \<^verbatim>\<open>WaterSimulation\<close> of \<^verbatim>\<open>src/script.js\<close> is embedded as a record of its
  mutable fields and one function per method, each taking the state and returning the
  state it leaves behind.

  Numbers. A JavaScript number is modelled as a \<^typ>\<open>real\<close>: the arithmetic of the
  model is exact, so rounding, \<^verbatim>\<open>NaN\<close> and the infinities are outside the model. The
  one place where the source names an infinity (\<^verbatim>\<open>targetVolume || Infinity\<close>) is
  written as the case distinction it stands for. \<^verbatim>\<open>Math.sin\<close>, \<^verbatim>\<open>Math.exp\<close>,
  \<^verbatim>\<open>Math.sqrt\<close>, \<^verbatim>\<open>Math.PI\<close> and \<^verbatim>\<open>Math.floor\<close> are the functions of the same name
  on the reals.

  Arrays. \<^verbatim>\<open>h\<close> and \<^verbatim>\<open>v\<close> are lists of reals. A read \<^verbatim>\<open>a[i] ?? 0\<close> and a guarded
  write \<^verbatim>\<open>if (a[i] !== undefined) a[i] += s\<close> are modelled for every integer index.
  The unguarded accesses of \<^verbatim>\<open>stepSurface\<close> and of the whirlpool sink are in range
  whenever both arrays have \<^verbatim>\<open>surfaceN\<close> entries, which is the invariant proved below
  for every state the constructor and the methods can reach.

  Inputs from the environment. \<^verbatim>\<open>update\<close> reads \<^verbatim>\<open>performance.now()\<close> once and
  \<^verbatim>\<open>Math.random()\<close> four times per spawned droplet; \<^verbatim>\<open>resize\<close> reads
  \<^verbatim>\<open>window.innerWidth\<close> and \<^verbatim>\<open>window.innerHeight\<close>. They are arguments of the
  model: the clock reading, the sequence of random draws of the call (draw number
  \<open>k\<close> is \<open>rnd k\<close>), and the two window sizes.

  Constants. The fields that the constructor sets to a literal and that no method
  assigns again are constants of the theory.
\<close>

subsection \<open>Data\<close>

text \<open>
  The fields keep the names of the source, with two exceptions: the arrays \<^verbatim>\<open>h\<close> and
  \<^verbatim>\<open>v\<close> are \<open>surf_h\<close> and \<open>surf_v\<close>, and the fields of a droplet carry the prefix
  \<open>d_\<close>. \<^verbatim>\<open>whirlpoolCenter\<close> is the pair of its \<^verbatim>\<open>x\<close> and \<^verbatim>\<open>y\<close>.
\<close>

record droplet =
  d_x :: real
  d_y :: real
  d_px :: real
  d_py :: real
  d_vx :: real
  d_vy :: real
  d_r :: real
  d_vol :: real

record state =
  droplets :: "droplet list"
  waterVolume :: real
  targetFillHeight :: real
  targetVolume :: real
  volumePerSecond :: real
  surfaceN :: nat
  surf_h :: "real list"
  surf_v :: "real list"
  dropSpawnAccumulator :: real
  streamX :: real
  isDraining :: bool
  whirlpoolActive :: bool
  whirlpoolCenter :: "real \<times> real"
  whirlpoolStrength :: real
  drainRate :: real
  width :: real
  height :: real

definition dropsPerSecond :: real where "dropsPerSecond = 260"
definition maxDroplets :: nat where "maxDroplets = 1400"
definition streamWidth :: real where "streamWidth = 10"
definition streamWobbleAmp :: real where "streamWobbleAmp = 18"
definition streamWobbleSpeed :: real where "streamWobbleSpeed = 0.65"
definition gravity :: real where "gravity = 5200"
definition airDrag :: real where "airDrag = 0.995"
definition waveSpeed :: real where "waveSpeed = 235"
definition waveDamping :: real where "waveDamping = 1.35"
definition surfaceViscosity :: real where "surfaceViscosity = 0.02"

text \<open>\<^verbatim>\<open>a[i] ?? 0\<close>: the entry, or 0 where the array has none.\<close>

definition nth0 :: "real list \<Rightarrow> int \<Rightarrow> real" where
  "nth0 a i = (if 0 \<le> i \<and> i < int (length a) then a ! nat i else 0)"

text \<open>\<^verbatim>\<open>if (a[i] !== undefined) a[i] += s\<close>.\<close>

definition add_at :: "real list \<Rightarrow> int \<Rightarrow> real \<Rightarrow> real list" where
  "add_at a i s = (if 0 \<le> i \<and> i < int (length a) then a[nat i := a ! nat i + s] else a)"

text \<open>\<^verbatim>\<open>a.splice(i, 1)\<close>.\<close>

definition splice1 :: "nat \<Rightarrow> 'a list \<Rightarrow> 'a list" where
  "splice1 i a = take i a @ drop (Suc i) a"

subsection \<open>Field set-up, control operations and the reservoir\<close>

definition initSurfaceField :: "state \<Rightarrow> state" where
  "initSurfaceField s =
     (let n = nat (max 96 \<lfloor>width s / 3\<rfloor>)
      in s\<lparr>surfaceN := n, surf_h := replicate n 0, surf_v := replicate n 0\<rparr>)"

definition setTargetFillHeight :: "state \<Rightarrow> real \<Rightarrow> state" where
  "setTargetFillHeight s hgt = s\<lparr>targetFillHeight := hgt, targetVolume := width s * hgt\<rparr>"

definition setEmission :: "state \<Rightarrow> real \<Rightarrow> state" where
  "setEmission s vps = s\<lparr>volumePerSecond := max 0 vps\<rparr>"

definition reset :: "state \<Rightarrow> state" where
  "reset s = s\<lparr>droplets := [], waterVolume := 0, dropSpawnAccumulator := 0,
               surf_h := map (\<lambda>_. 0) (surf_h s), surf_v := map (\<lambda>_. 0) (surf_v s),
               isDraining := False, whirlpoolActive := False,
               whirlpoolStrength := 0, drainRate := 0\<rparr>"

text \<open>\<^verbatim>\<open>this.targetFillHeight || this.height\<close>: the height where the target is 0.\<close>

definition getWaterHeight :: "state \<Rightarrow> real" where
  "getWaterHeight s =
     (if width s \<le> 0 then 0
      else min (if targetFillHeight s \<noteq> 0 then targetFillHeight s else height s)
               (waterVolume s / width s))"

definition getBaseSurfaceY :: "state \<Rightarrow> real" where
  "getBaseSurfaceY s = height s - getWaterHeight s"

definition xToIndex :: "state \<Rightarrow> real \<Rightarrow> int" where
  "xToIndex s x =
     (let t = (if width s \<le> 1 then 0 else x / width s)
      in max 0 (min (int (surfaceN s) - 1) \<lfloor>t * real_of_int (int (surfaceN s) - 1)\<rfloor>))"

definition sampleSurfaceOffset :: "state \<Rightarrow> real \<Rightarrow> real" where
  "sampleSurfaceOffset s x =
     (if surfaceN s \<le> 1 then 0
      else let fx = (x / width s) * real_of_int (int (surfaceN s) - 1);
               i0 = \<lfloor>fx\<rfloor>;
               i1 = min (int (surfaceN s) - 1) (i0 + 1);
               t = fx - real_of_int i0
           in nth0 (surf_h s) i0 * (1 - t) + nth0 (surf_h s) i1 * t)"

definition getSurfaceY :: "state \<Rightarrow> real \<Rightarrow> real" where
  "getSurfaceY s x = getBaseSurfaceY s + sampleSurfaceOffset s x"

definition addRippleImpulse :: "state \<Rightarrow> real \<Rightarrow> real \<Rightarrow> state" where
  "addRippleImpulse s x strength =
     (let idx = xToIndex s x;
          a0 = add_at (surf_v s) idx strength;
          a1 = add_at a0 (idx - 1) (strength * 0.75);
          a2 = add_at a1 (idx + 1) (strength * 0.75);
          a3 = add_at a2 (idx - 2) (strength * 0.45);
          a4 = add_at a3 (idx + 2) (strength * 0.45);
          a5 = add_at a4 (idx - 3) (strength * 0.20);
          a6 = add_at a5 (idx + 3) (strength * 0.20)
      in s\<lparr>surf_v := a6\<rparr>)"

definition startDraining :: "state \<Rightarrow> state" where
  "startDraining s =
     s\<lparr>isDraining := True, whirlpoolActive := True,
       whirlpoolCenter := (width s / 2, height s - 50),
       whirlpoolStrength := 0.6,
       drainRate := waterVolume s / 2.2\<rparr>"

subsection \<open>Spawning droplets\<close>

text \<open>
  \<^verbatim>\<open>spawnDroplet\<close>, with the position \<open>k\<close> in the sequence of random draws carried
  along: a spawn that the cap refuses draws nothing, a spawn that happens draws four
  numbers, in the order volume, jitter, height, horizontal velocity.
\<close>

definition spawnDroplet :: "(nat \<Rightarrow> real) \<Rightarrow> state \<times> nat \<Rightarrow> state \<times> nat" where
  "spawnDroplet rnd sk =
     (let s = fst sk; k = snd sk
      in if length (droplets s) \<ge> maxDroplets then (s, k)
         else
           let meanDropVolume = volumePerSecond s / max 1 dropsPerSecond;
               vol = max 0.0001 (meanDropVolume * (0.65 + rnd k * 0.7));
               r = max 1.5 (min 5.5 (sqrt (vol / pi) * 9.5));
               jitter = (rnd (k + 1) - 0.5) * streamWidth * 0.9;
               x = max 0 (min (width s) (streamX s + jitter));
               y = - 12 - rnd (k + 2) * 40;
               vx = (rnd (k + 3) - 0.5) * 20;
               vy = 0
           in (s\<lparr>droplets := droplets s @
                  [\<lparr>d_x = x, d_y = y, d_px = x, d_py = y, d_vx = vx, d_vy = vy,
                    d_r = r, d_vol = vol\<rparr>]\<rparr>, k + 4))"

text \<open>
  \<^verbatim>\<open>while (this.dropSpawnAccumulator >= 1) { this.spawnDroplet(); this.dropSpawnAccumulator -= 1; }\<close>
\<close>

function spawnLoop :: "(nat \<Rightarrow> real) \<Rightarrow> state \<times> nat \<Rightarrow> state \<times> nat" where
  "spawnLoop rnd sk =
     (if dropSpawnAccumulator (fst sk) \<ge> 1
      then let sk' = spawnDroplet rnd sk
           in spawnLoop rnd
                (fst sk'\<lparr>dropSpawnAccumulator := dropSpawnAccumulator (fst sk') - 1\<rparr>, snd sk')
      else sk)"
  by pat_completeness auto
termination
proof (relation "measure (\<lambda>(rnd, sk). nat \<lfloor>dropSpawnAccumulator (fst sk)\<rfloor>)")
  show "wf (measure (\<lambda>(rnd, sk). nat \<lfloor>dropSpawnAccumulator (fst sk)\<rfloor>))"
    by simp
next
  fix rnd :: "nat \<Rightarrow> real" and sk sk' :: "state \<times> nat"
  assume a: "1 \<le> dropSpawnAccumulator (fst sk)" and sk': "sk' = spawnDroplet rnd sk"
  have same: "dropSpawnAccumulator (fst sk') = dropSpawnAccumulator (fst sk)"
    unfolding sk' spawnDroplet_def by (simp add: Let_def)
  have "\<lfloor>dropSpawnAccumulator (fst sk) - 1\<rfloor> = \<lfloor>dropSpawnAccumulator (fst sk)\<rfloor> - 1"
    by linarith
  moreover have "1 \<le> \<lfloor>dropSpawnAccumulator (fst sk)\<rfloor>"
    using a by linarith
  ultimately show
    "((rnd, fst sk'\<lparr>dropSpawnAccumulator := dropSpawnAccumulator (fst sk') - 1\<rparr>, snd sk'),
      (rnd, sk)) \<in> measure (\<lambda>(rnd, sk). nat \<lfloor>dropSpawnAccumulator (fst sk)\<rfloor>)"
    using same by simp
qed

declare spawnLoop.simps [simp del]

subsection \<open>The heightfield step\<close>

text \<open>
  \<^verbatim>\<open>stepSurface\<close>. Each of its three \<^verbatim>\<open>for\<close> statements is a fold over its index range, each
  iteration an update of the arrays at its index, in the order of the source: the
  first loop reads \<^verbatim>\<open>h\<close> and writes \<^verbatim>\<open>v\<close>; the second writes \<^verbatim>\<open>v[i]\<close> and then
  \<^verbatim>\<open>h[i]\<close> from the new \<^verbatim>\<open>v[i]\<close>; the third fills \<^verbatim>\<open>tmp\<close> from \<^verbatim>\<open>h\<close>.

  With a width of 0 the sample spacing \<open>dx\<close> is 0 and the source divides by
  \<open>dx * dx = 0\<close>, which gives \<^verbatim>\<open>NaN\<close> or an infinity; in the model a division by 0
  is 0. The values of the model stand for those of the source for a width other than 0
  only, and the statements about these values below assume it.
\<close>

definition lapStep :: "real \<Rightarrow> real \<Rightarrow> real \<Rightarrow> real list \<Rightarrow> nat \<Rightarrow> real list \<Rightarrow> real list" where
  "lapStep c2 dx dt hh i vv =
     (let lap = (hh ! (i - 1) + hh ! (i + 1) - 2 * hh ! i) / (dx * dx)
      in vv[i := vv ! i + c2 * lap * dt])"

definition dampStep :: "real \<Rightarrow> real \<Rightarrow> nat \<Rightarrow> real list \<times> real list \<Rightarrow> real list \<times> real list" where
  "dampStep damp dt i hv =
     (let hh = fst hv; vv = snd hv;
          vv' = vv[i := vv ! i * damp];
          hh' = hh[i := hh ! i + vv' ! i * dt]
      in (hh', vv'))"

definition blurStep :: "real \<Rightarrow> real list \<Rightarrow> nat \<Rightarrow> real list \<Rightarrow> real list" where
  "blurStep a hh i tmp =
     tmp[i := hh ! i * (1 - a) + (hh ! (i - 1) + hh ! (i + 1)) * (a * 0.5)]"

definition stepSurface :: "state \<Rightarrow> real \<Rightarrow> state" where
  "stepSurface s dt =
     (if surfaceN s \<le> 2 then s
      else
        let n = surfaceN s;
            dx = width s / real (n - 1);
            c2 = waveSpeed * waveSpeed;
            v1 = fold (lapStep c2 dx dt (surf_h s)) [1..<n - 1] (surf_v s);
            damp = exp (- waveDamping * dt);
            hv = fold (dampStep damp dt) [0..<n] (surf_h s, v1);
            h2 = fst hv; v2 = snd hv
        in if surfaceViscosity > 0
           then
             let tmp0 = (replicate n 0)[0 := h2 ! 0];
                 tmp1 = tmp0[n - 1 := h2 ! (n - 1)];
                 a = surfaceViscosity;
                 tmp = fold (blurStep a h2) [1..<n - 1] tmp1
             in s\<lparr>surf_h := tmp, surf_v := v2\<rparr>
           else s\<lparr>surf_h := h2, surf_v := v2\<rparr>)"

subsection \<open>The update step\<close>

text \<open>The integration of one droplet, up to and including the side boundaries.\<close>

definition stepDroplet :: "real \<Rightarrow> real \<Rightarrow> droplet \<Rightarrow> droplet" where
  "stepDroplet dt w d =
     (let d1 = d\<lparr>d_px := d_x d, d_py := d_y d\<rparr>;
          d2 = d1\<lparr>d_vy := d_vy d1 + gravity * dt\<rparr>;
          d3 = d2\<lparr>d_vx := d_vx d2 * airDrag\<rparr>;
          d4 = d3\<lparr>d_vy := d_vy d3 * airDrag\<rparr>;
          d5 = d4\<lparr>d_x := d_x d4 + d_vx d4 * dt\<rparr>;
          d6 = d5\<lparr>d_y := d_y d5 + d_vy d5 * dt\<rparr>
      in if d_x d6 < d_r d6 then d6\<lparr>d_x := d_r d6, d_vx := d_vx d6 * (- 0.35)\<rparr>
         else if d_x d6 > w - d_r d6 then d6\<lparr>d_x := w - d_r d6, d_vx := d_vx d6 * (- 0.35)\<rparr>
         else d6)"

text \<open>
  The body of the droplet loop at index \<open>i\<close>: the droplet is integrated in place, then
  merged into the reservoir on impact (\<^verbatim>\<open>Math.min(this.targetVolume || Infinity, ...)\<close>),
  discarded far below the scene, or left in the list.
\<close>

definition dropletBody :: "real \<Rightarrow> nat \<Rightarrow> state \<Rightarrow> state" where
  "dropletBody dt i s =
     (let d = stepDroplet dt (width s) (droplets s ! i);
          surfaceY = getSurfaceY s (d_x d)
      in if d_y d + d_r d \<ge> surfaceY then
           let s1 = s\<lparr>waterVolume :=
                        (if targetVolume s \<noteq> 0
                         then min (targetVolume s) (waterVolume s + d_vol d)
                         else waterVolume s + d_vol d)\<rparr>;
               impulse = min 6500 (d_vy d * 1.25 + d_vol d * 220);
               s2 = addRippleImpulse s1 (d_x d) impulse
           in s2\<lparr>droplets := splice1 i (droplets s2)\<rparr>
         else if d_y d > height s + 120 then s\<lparr>droplets := splice1 i (droplets s)\<rparr>
         else s\<lparr>droplets := (droplets s)[i := d]\<rparr>)"

text \<open>
  \<^verbatim>\<open>for (let i = this.droplets.length - 1; i >= 0; i--)\<close>: \<open>dropletLoop dt n s\<close> runs
  the body at the indices \<open>n - 1\<close> down to 0.
\<close>

fun dropletLoop :: "real \<Rightarrow> nat \<Rightarrow> state \<Rightarrow> state" where
  "dropletLoop dt 0 s = s"
| "dropletLoop dt (Suc i) s = dropletLoop dt i (dropletBody dt i s)"

text \<open>The whirlpool sink: one iteration of \<^verbatim>\<open>for (let k = -28; k <= 28; k++)\<close>.\<close>

definition sinkStep :: "nat \<Rightarrow> int \<Rightarrow> real \<Rightarrow> real \<Rightarrow> int \<Rightarrow> real list \<Rightarrow> real list" where
  "sinkStep n idx sink dt k vv =
     (let j = idx + k
      in if j < 0 \<or> j \<ge> int n then vv
         else let sigma = 9 :: real;
                  w = exp (- (real_of_int (k * k)) / (2 * sigma * sigma))
              in vv[nat j := vv ! nat j + sink * w * dt])"

text \<open>
  The statements of \<^verbatim>\<open>update\<close> (lines 238 to 335 of \<^verbatim>\<open>script.js\<close>), one definition for
  each block of the source: the clamp of the timestep (line 239); the wobble of the
  stream position, which reads the clock (241 to 246); the emission of droplets (250 to
  256); the withdrawal of the drain (259 to 262); the droplet loop (267 to 304, above);
  the whirlpool sink (307 to 318); and the switch-off of a finished drain (329 to 334).

  The withdrawal of the drain, \<open>drainRate * dt\<close>, is computed here in exact
  arithmetic and in the source in rounded arithmetic. A sum of withdrawals that meets
  the volume exactly in the model can leave a small positive rest in the source, so
  no statement below depends on such a sum: the statements about the drain are about
  one update, or hold whatever the withdrawals add up to.
\<close>

definition clampDt :: "real \<Rightarrow> real" where
  "clampDt deltaTime = max 0 (min 0.05 deltaTime)"

definition updateStream :: "real \<Rightarrow> state \<Rightarrow> state" where
  "updateStream now s =
     (let t = now * 0.001;
          base = width s * 0.56;
          wobble = sin (t * (pi * 2) * streamWobbleSpeed) * streamWobbleAmp;
          wobble2 = sin (t * (pi * 2) * (streamWobbleSpeed * 1.9) + 1.3)
                      * (streamWobbleAmp * 0.35)
      in s\<lparr>streamX := max streamWidth (min (width s - streamWidth) (base + wobble + wobble2))\<rparr>)"

definition emitDroplets :: "real \<Rightarrow> (nat \<Rightarrow> real) \<Rightarrow> state \<Rightarrow> state" where
  "emitDroplets dt rnd s =
     (if \<not> isDraining s \<and> \<not> whirlpoolActive s \<and> volumePerSecond s > 0
      then fst (spawnLoop rnd
                  (s\<lparr>dropSpawnAccumulator := dropSpawnAccumulator s + dropsPerSecond * dt\<rparr>, 0))
      else s)"

definition drainVolume :: "real \<Rightarrow> state \<Rightarrow> state" where
  "drainVolume dt s =
     (if isDraining s \<and> drainRate s > 0
      then s\<lparr>waterVolume := max 0 (waterVolume s - drainRate s * dt),
             whirlpoolStrength := min 3.5 (whirlpoolStrength s + dt * 0.9)\<rparr>
      else s)"

definition whirlpoolSink :: "real \<Rightarrow> state \<Rightarrow> state" where
  "whirlpoolSink dt s =
     (if whirlpoolActive s
      then let cx = fst (whirlpoolCenter s);
               idx = xToIndex s cx;
               sink = - 1600 * whirlpoolStrength s
           in s\<lparr>surf_v := fold (sinkStep (surfaceN s) idx sink dt) [- 28..28] (surf_v s)\<rparr>
      else s)"

definition autoStop :: "state \<Rightarrow> state" where
  "autoStop s =
     (if isDraining s \<and> waterVolume s \<le> 0 \<and> length (droplets s) = 0
      then s\<lparr>whirlpoolActive := False, isDraining := False,
             whirlpoolStrength := 0, drainRate := 0\<rparr>
      else s)"

text \<open>
  \<^verbatim>\<open>update(deltaTime)\<close>, its statements in the order of the source. \<open>baseSurfaceY\<close> is
  read before the droplet loop and tested after the whirlpool sink, as in the source.
\<close>

definition update :: "state \<Rightarrow> real \<Rightarrow> real \<Rightarrow> (nat \<Rightarrow> real) \<Rightarrow> state" where
  "update s deltaTime now rnd =
     (let dt = clampDt deltaTime;
          s1 = updateStream now s;
          s2 = emitDroplets dt rnd s1;
          s3 = drainVolume dt s2;
          baseSurfaceY = getBaseSurfaceY s3;
          s4 = dropletLoop dt (length (droplets s3)) s3;
          s5 = whirlpoolSink dt s4;
          s6 = (if baseSurfaceY < 0 then s5\<lparr>waterVolume := width s5 * height s5\<rparr> else s5);
          s7 = stepSurface s6 dt
      in autoStop s7)"

subsection \<open>Resize and construction\<close>

definition resampleStep ::
  "nat \<Rightarrow> nat \<Rightarrow> real list \<Rightarrow> real list \<Rightarrow> nat \<Rightarrow> real list \<times> real list \<Rightarrow> real list \<times> real list" where
  "resampleStep n oldN oldH oldV i hv =
     (let x = (real i / real_of_int (int n - 1)) * real_of_int (int oldN - 1);
          i0 = \<lfloor>x\<rfloor>;
          i1 = min (int oldN - 1) (i0 + 1);
          t = x - real_of_int i0
      in ((fst hv)[i := nth0 oldH i0 * (1 - t) + nth0 oldH i1 * t],
          (snd hv)[i := nth0 oldV i0 * (1 - t) + nth0 oldV i1 * t]))"

text \<open>
  \<^verbatim>\<open>resize()\<close> with the window's inner size as arguments; the canvas and its drawing
  context are not part of the state. \<^verbatim>\<open>this.width || newWidth\<close> is the new width
  where the old one is 0 or not yet set.
\<close>

definition resize :: "state \<Rightarrow> real \<Rightarrow> real \<Rightarrow> state" where
  "resize s newWidth newHeight =
     (let oldH = surf_h s; oldV = surf_v s; oldN = surfaceN s;
          oldWidth = (if width s \<noteq> 0 then width s else newWidth);
          s1 = s\<lparr>width := newWidth, height := newHeight\<rparr>;
          s2 = (if targetFillHeight s1 > 0
                then s1\<lparr>targetVolume := width s1 * targetFillHeight s1\<rparr> else s1);
          s3 = initSurfaceField s2;
          s4 = (if oldN > 0 \<and> length oldH = oldN
                then let hv = fold (resampleStep (surfaceN s3) oldN oldH oldV)
                                [0..<surfaceN s3] (surf_h s3, surf_v s3)
                     in s3\<lparr>surf_h := fst hv, surf_v := snd hv\<rparr>
                else s3);
          sx = width s4 / max 1 oldWidth;
          s5 = s4\<lparr>droplets :=
                   map (\<lambda>d. let d1 = d\<lparr>d_x := d_x d * sx\<rparr>
                            in d1\<lparr>d_x := max (d_r d1) (min (width s4 - d_r d1) (d_x d1))\<rparr>)
                     (droplets s4)\<rparr>
      in s5\<lparr>streamX := width s5 * 0.55\<rparr>)"

text \<open>The fields as the constructor sets them before it calls \<^verbatim>\<open>resize()\<close>.\<close>

definition fresh :: state where
  "fresh = \<lparr>droplets = [], waterVolume = 0, targetFillHeight = 0, targetVolume = 0,
            volumePerSecond = 0, surfaceN = 0, surf_h = [], surf_v = [],
            dropSpawnAccumulator = 0, streamX = 0, isDraining = False,
            whirlpoolActive = False, whirlpoolCenter = (0, 0), whirlpoolStrength = 0,
            drainRate = 0, width = 0, height = 0\<rparr>"

definition constructor :: "real \<Rightarrow> real \<Rightarrow> state" where
  "constructor innerWidth innerHeight = resize fresh innerWidth innerHeight"

subsection \<open>Sequences of calls\<close>

text \<open>The calls a client of the class can make, with their arguments and inputs.\<close>

datatype call =
    Resize real real
  | SetTargetFillHeight real
  | SetEmission real
  | Reset
  | Update real real "nat \<Rightarrow> real"
  | StartDraining

fun perform :: "state \<Rightarrow> call \<Rightarrow> state" where
  "perform s (Resize w hgt) = resize s w hgt"
| "perform s (SetTargetFillHeight hgt) = setTargetFillHeight s hgt"
| "perform s (SetEmission vps) = setEmission s vps"
| "perform s Reset = reset s"
| "perform s (Update deltaTime now rnd) = update s deltaTime now rnd"
| "perform s StartDraining = startDraining s"

definition run :: "state \<Rightarrow> call list \<Rightarrow> state" where
  "run s cs = foldl perform s cs"


subsection \<open>The invariant of the heightfield and the specified heightfield step\<close>

text \<open>Both arrays of the heightfield have \<^verbatim>\<open>surfaceN\<close> entries.\<close>

definition fieldOk :: "state \<Rightarrow> bool" where
  "fieldOk s \<longleftrightarrow> length (surf_h s) = surfaceN s \<and> length (surf_v s) = surfaceN s"

text \<open>
  The heightfield step as the specification words it, sample by sample: the velocity
  of an interior sample gains the central-difference Laplacian of the heights times
  \<open>c\<^sup>2 dt\<close>, a boundary sample gains nothing; every velocity is damped by
  \<open>exp (- waveDamping dt)\<close>; every height advances by its new velocity times \<open>dt\<close>;
  one blur pass averages each interior height with its two neighbours and keeps the
  two boundary heights.
\<close>

definition centralLaplacian :: "real list \<Rightarrow> real \<Rightarrow> nat \<Rightarrow> real" where
  "centralLaplacian hh dx i = (hh ! (i - 1) - 2 * hh ! i + hh ! (i + 1)) / dx\<^sup>2"

definition specVelocity :: "state \<Rightarrow> real \<Rightarrow> nat \<Rightarrow> real" where
  "specVelocity s dt i =
     (let n = surfaceN s;
          dx = width s / real (n - 1);
          gain = (if 1 \<le> i \<and> i \<le> n - 2
                  then waveSpeed\<^sup>2 * centralLaplacian (surf_h s) dx i * dt else 0)
      in (surf_v s ! i + gain) * exp (- waveDamping * dt))"

definition specHeight :: "state \<Rightarrow> real \<Rightarrow> nat \<Rightarrow> real" where
  "specHeight s dt i = surf_h s ! i + specVelocity s dt i * dt"

definition specBlur :: "state \<Rightarrow> real \<Rightarrow> nat \<Rightarrow> real" where
  "specBlur s dt i =
     (if i = 0 \<or> i = surfaceN s - 1 then specHeight s dt i
      else (1 - surfaceViscosity) * specHeight s dt i
           + (surfaceViscosity / 2) * (specHeight s dt (i - 1) + specHeight s dt (i + 1)))"

definition specStepSurface :: "state \<Rightarrow> real \<Rightarrow> state" where
  "specStepSurface s dt =
     s\<lparr>surf_h := map (specBlur s dt) [0..<surfaceN s],
       surf_v := map (specVelocity s dt) [0..<surfaceN s]\<rparr>"

subsection \<open>Concrete inputs\<close>

text \<open>
  Inputs for the evaluations below: a sequence of random draws in which
  \<^verbatim>\<open>Math.random()\<close> returns 0 every time, a droplet moving left next to the left
  boundary and a droplet moving right next to the right boundary.
\<close>

definition zeroDraws :: "nat \<Rightarrow> real" where
  "zeroDraws k = 0"

definition edgeDroplet :: droplet where
  "edgeDroplet = \<lparr>d_x = 2, d_y = 10, d_px = 2, d_py = 10, d_vx = - 100, d_vy = 0,
                  d_r = 3, d_vol = 1\<rparr>"

definition rightDroplet :: droplet where
  "rightDroplet = \<lparr>d_x = 298, d_y = 10, d_px = 298, d_py = 10, d_vx = 100, d_vy = 0,
                   d_r = 3, d_vol = 1\<rparr>"

text \<open>
  A droplet about to land, and two scenes 150 wide and 100 high with the target height
  100 (target volume 15000) in which it is the only droplet: one whose reservoir is just
  below the target, and one whose reservoir holds more than the target, as after the
  window has been made narrower.
\<close>

definition landingDroplet :: droplet where
  "landingDroplet = \<lparr>d_x = 75, d_y = - 2, d_px = 75, d_py = - 2, d_vx = 0, d_vy = 100,
                     d_r = 3, d_vol = 1\<rparr>"

definition nearlyFullScene :: state where
  "nearlyFullScene =
     (constructor 150 100)\<lparr>targetFillHeight := 100, targetVolume := 15000,
                            waterVolume := 29999 / 2, droplets := [landingDroplet]\<rparr>"

definition overfullScene :: state where
  "overfullScene =
     (constructor 150 100)\<lparr>targetFillHeight := 100, targetVolume := 15000,
                            waterVolume := 20000, droplets := [landingDroplet]\<rparr>"

text \<open>
  A scene 300 wide and 100 high that holds the volume 2200 and has no droplet in
  flight, and the frames of a drain animation that calls \<^verbatim>\<open>update(0.05)\<close> 44 times.
\<close>

definition filledScene :: state where
  "filledScene = (constructor 300 100)\<lparr>waterVolume := 2200\<rparr>"





text \<open>
  Two more sequences of random draws: \<^verbatim>\<open>Math.random()\<close> returning one half every time,
  and returning 0 four times and one half from then on.
\<close>

definition halfDraws :: "nat \<Rightarrow> real" where
  "halfDraws k = 1 / 2"

definition lateDraws :: "nat \<Rightarrow> real" where
  "lateDraws k = (if k < 4 then 0 else 1 / 2)"

text \<open>
  A scene 300 wide whose heightfield of 100 samples is at rest but for sample 49, which
  stands at height 1 and moves with velocity 40.
\<close>

definition bumpScene :: state where
  "bumpScene = (constructor 300 100)\<lparr>surf_h := (replicate 100 0)[49 := 1],
                                     surf_v := (replicate 100 0)[49 := 40]\<rparr>"

section \<open>What each step changes\<close>

text \<open>
  Each phase of \<^verbatim>\<open>update\<close> writes a few fields and leaves the others alone. The
  lemmas of this section give, for each phase, the fields it may write.
\<close>

lemma spawnDroplet_shape:
  "\<exists>ds. fst (spawnDroplet rnd sk) = (fst sk)\<lparr>droplets := ds\<rparr>"
proof (cases "length (droplets (fst sk)) \<ge> maxDroplets")
  case True
  then have "fst (spawnDroplet rnd sk) = (fst sk)\<lparr>droplets := droplets (fst sk)\<rparr>"
    by (simp add: spawnDroplet_def Let_def)
  then show ?thesis by blast
next
  case False
  then show ?thesis
    by (simp add: spawnDroplet_def Let_def) blast
qed

lemma spawnLoop_shape:
  "\<exists>ds a. fst (spawnLoop rnd sk) = (fst sk)\<lparr>droplets := ds, dropSpawnAccumulator := a\<rparr>"
proof (induction rnd sk rule: spawnLoop.induct)
  case (1 rnd sk)
  show ?case
  proof (cases "dropSpawnAccumulator (fst sk) \<ge> 1")
    case False
    then have "fst (spawnLoop rnd sk) =
        (fst sk)\<lparr>droplets := droplets (fst sk),
                 dropSpawnAccumulator := dropSpawnAccumulator (fst sk)\<rparr>"
      by (subst spawnLoop.simps) simp
    then show ?thesis by blast
  next
    case True
    obtain ds where ds: "fst (spawnDroplet rnd sk) = (fst sk)\<lparr>droplets := ds\<rparr>"
      using spawnDroplet_shape by blast
    define sk' where "sk' = spawnDroplet rnd sk"
    define nxt where
      "nxt = (fst sk'\<lparr>dropSpawnAccumulator := dropSpawnAccumulator (fst sk') - 1\<rparr>, snd sk')"
    from "1.IH"[OF True sk'_def]
    obtain ds' a where
      "fst (spawnLoop rnd nxt) = (fst nxt)\<lparr>droplets := ds', dropSpawnAccumulator := a\<rparr>"
      unfolding nxt_def by blast
    moreover have "spawnLoop rnd sk = spawnLoop rnd nxt"
      using True by (subst spawnLoop.simps) (simp add: nxt_def sk'_def Let_def)
    ultimately have
      "fst (spawnLoop rnd sk) = (fst sk)\<lparr>droplets := ds', dropSpawnAccumulator := a\<rparr>"
      using ds by (simp add: nxt_def sk'_def)
    then show ?thesis by blast
  qed
qed

lemma addRippleImpulse_shape: "\<exists>vv. addRippleImpulse s x st = s\<lparr>surf_v := vv\<rparr>"
  unfolding addRippleImpulse_def Let_def by blast

lemma dropletBody_shape:
  "\<exists>ds wv vv. dropletBody dt i s = s\<lparr>droplets := ds, waterVolume := wv, surf_v := vv\<rparr>"
proof -
  define d where "d = stepDroplet dt (width s) (droplets s ! i)"
  consider (hit) "d_y d + d_r d \<ge> getSurfaceY s (d_x d)"
    | (lost) "\<not> d_y d + d_r d \<ge> getSurfaceY s (d_x d)" "d_y d > height s + 120"
    | (stay) "\<not> d_y d + d_r d \<ge> getSurfaceY s (d_x d)" "\<not> d_y d > height s + 120"
    by blast
  then show ?thesis
  proof cases
    case hit
    obtain wv where wv: "wv = (if targetVolume s \<noteq> 0
                         then min (targetVolume s) (waterVolume s + d_vol d)
                         else waterVolume s + d_vol d)" by blast
    obtain vv where vv: "addRippleImpulse (s\<lparr>waterVolume := wv\<rparr>) (d_x d)
         (min 6500 (d_vy d * 1.25 + d_vol d * 220)) = s\<lparr>waterVolume := wv, surf_v := vv\<rparr>"
      using addRippleImpulse_shape by blast
    have "dropletBody dt i s =
       s\<lparr>droplets := splice1 i (droplets s), waterVolume := wv, surf_v := vv\<rparr>"
      using hit vv unfolding dropletBody_def Let_def d_def[symmetric] wv[symmetric]
      by simp
    then show ?thesis by blast
  next
    case lost
    then have "dropletBody dt i s =
       s\<lparr>droplets := splice1 i (droplets s), waterVolume := waterVolume s,
         surf_v := surf_v s\<rparr>"
      unfolding dropletBody_def Let_def d_def[symmetric] by simp
    then show ?thesis by blast
  next
    case stay
    then have "dropletBody dt i s =
       s\<lparr>droplets := (droplets s)[i := d], waterVolume := waterVolume s,
         surf_v := surf_v s\<rparr>"
      unfolding dropletBody_def Let_def d_def[symmetric] by simp
    then show ?thesis by blast
  qed
qed

lemma dropletLoop_shape:
  "\<exists>ds wv vv. dropletLoop dt n s = s\<lparr>droplets := ds, waterVolume := wv, surf_v := vv\<rparr>"
proof (induction n arbitrary: s)
  case 0
  have "dropletLoop dt 0 s =
     s\<lparr>droplets := droplets s, waterVolume := waterVolume s, surf_v := surf_v s\<rparr>"
    by simp
  then show ?case by blast
next
  case (Suc n)
  obtain ds wv vv where
    b: "dropletBody dt n s = s\<lparr>droplets := ds, waterVolume := wv, surf_v := vv\<rparr>"
    using dropletBody_shape by blast
  obtain ds' wv' vv' where
    "dropletLoop dt n (dropletBody dt n s) =
       (dropletBody dt n s)\<lparr>droplets := ds', waterVolume := wv', surf_v := vv'\<rparr>"
    using Suc.IH by blast
  then have "dropletLoop dt (Suc n) s = s\<lparr>droplets := ds', waterVolume := wv', surf_v := vv'\<rparr>"
    using b by simp
  then show ?case by blast
qed

lemma stepSurface_shape: "\<exists>hh vv. stepSurface s dt = s\<lparr>surf_h := hh, surf_v := vv\<rparr>"
proof (cases "surfaceN s \<le> 2")
  case True
  then have "stepSurface s dt = s\<lparr>surf_h := surf_h s, surf_v := surf_v s\<rparr>"
    by (simp add: stepSurface_def)
  then show ?thesis by blast
next
  case False
  then show ?thesis
    unfolding stepSurface_def Let_def by (simp only: if_False split: if_splits) blast
qed

lemma whirlpoolSink_shape: "\<exists>vv. whirlpoolSink dt s = s\<lparr>surf_v := vv\<rparr>"
proof (cases "whirlpoolActive s")
  case True
  then show ?thesis unfolding whirlpoolSink_def Let_def by (simp only: if_True) blast
next
  case False
  then have "whirlpoolSink dt s = s\<lparr>surf_v := surf_v s\<rparr>"
    by (simp add: whirlpoolSink_def)
  then show ?thesis by blast
qed

lemma updateStream_shape: "\<exists>a. updateStream now s = s\<lparr>streamX := a\<rparr>"
  unfolding updateStream_def Let_def by blast

lemma emitDroplets_shape:
  "\<exists>ds a. emitDroplets dt rnd s = s\<lparr>droplets := ds, dropSpawnAccumulator := a\<rparr>"
proof (cases "\<not> isDraining s \<and> \<not> whirlpoolActive s \<and> volumePerSecond s > 0")
  case True
  define s0 where "s0 = s\<lparr>dropSpawnAccumulator := dropSpawnAccumulator s + dropsPerSecond * dt\<rparr>"
  obtain ds a where "fst (spawnLoop rnd (s0, 0)) = s0\<lparr>droplets := ds, dropSpawnAccumulator := a\<rparr>"
    using spawnLoop_shape[of rnd "(s0, 0)"] by auto
  then have "emitDroplets dt rnd s = s\<lparr>droplets := ds, dropSpawnAccumulator := a\<rparr>"
    using True by (simp add: emitDroplets_def s0_def)
  then show ?thesis by blast
next
  case False
  then have "emitDroplets dt rnd s =
      s\<lparr>droplets := droplets s, dropSpawnAccumulator := dropSpawnAccumulator s\<rparr>"
    by (auto simp: emitDroplets_def)
  then show ?thesis by blast
qed

lemma drainVolume_shape:
  "\<exists>wv ws. drainVolume dt s = s\<lparr>waterVolume := wv, whirlpoolStrength := ws\<rparr>"
proof (cases "isDraining s \<and> drainRate s > 0")
  case True
  then have "drainVolume dt s =
      s\<lparr>waterVolume := max 0 (waterVolume s - drainRate s * dt),
        whirlpoolStrength := min 3.5 (whirlpoolStrength s + dt * 0.9)\<rparr>"
    by (simp add: drainVolume_def)
  then show ?thesis by blast
next
  case False
  then have "drainVolume dt s =
      s\<lparr>waterVolume := waterVolume s, whirlpoolStrength := whirlpoolStrength s\<rparr>"
    by (auto simp: drainVolume_def)
  then show ?thesis by blast
qed

lemma autoStop_shape:
  "\<exists>wa dr ws r. autoStop s =
      s\<lparr>whirlpoolActive := wa, isDraining := dr, whirlpoolStrength := ws, drainRate := r\<rparr>"
proof (cases "isDraining s \<and> waterVolume s \<le> 0 \<and> length (droplets s) = 0")
  case True
  then have "autoStop s = s\<lparr>whirlpoolActive := False, isDraining := False,
             whirlpoolStrength := 0, drainRate := 0\<rparr>"
    by (simp add: autoStop_def)
  then show ?thesis by blast
next
  case False
  then have "autoStop s = s\<lparr>whirlpoolActive := whirlpoolActive s, isDraining := isDraining s,
        whirlpoolStrength := whirlpoolStrength s, drainRate := drainRate s\<rparr>"
    by (auto simp: autoStop_def)
  then show ?thesis by blast
qed

text \<open>The phases of one update, named.\<close>

lemma update_phases:
  obtains s1 s2 s3 s4 s5 s6 s7 where
    "s1 = updateStream now s"
    "s2 = emitDroplets (clampDt dT) rnd s1"
    "s3 = drainVolume (clampDt dT) s2"
    "s4 = dropletLoop (clampDt dT) (length (droplets s3)) s3"
    "s5 = whirlpoolSink (clampDt dT) s4"
    "s6 = (if getBaseSurfaceY s3 < 0 then s5\<lparr>waterVolume := width s5 * height s5\<rparr> else s5)"
    "s7 = stepSurface s6 (clampDt dT)"
    "update s dT now rnd = autoStop s7"
  by (simp add: update_def Let_def)

lemma updateStream_frame:
  "droplets (updateStream now s) = droplets s
   \<and> waterVolume (updateStream now s) = waterVolume s
   \<and> targetFillHeight (updateStream now s) = targetFillHeight s
   \<and> targetVolume (updateStream now s) = targetVolume s
   \<and> volumePerSecond (updateStream now s) = volumePerSecond s
   \<and> surfaceN (updateStream now s) = surfaceN s
   \<and> surf_h (updateStream now s) = surf_h s
   \<and> surf_v (updateStream now s) = surf_v s
   \<and> dropSpawnAccumulator (updateStream now s) = dropSpawnAccumulator s
   \<and> isDraining (updateStream now s) = isDraining s
   \<and> whirlpoolActive (updateStream now s) = whirlpoolActive s
   \<and> whirlpoolCenter (updateStream now s) = whirlpoolCenter s
   \<and> whirlpoolStrength (updateStream now s) = whirlpoolStrength s
   \<and> drainRate (updateStream now s) = drainRate s
   \<and> width (updateStream now s) = width s
   \<and> height (updateStream now s) = height s"
  using updateStream_shape[of now s] by (elim exE) simp

lemma emitDroplets_frame:
  "waterVolume (emitDroplets dt rnd s) = waterVolume s
   \<and> targetFillHeight (emitDroplets dt rnd s) = targetFillHeight s
   \<and> targetVolume (emitDroplets dt rnd s) = targetVolume s
   \<and> volumePerSecond (emitDroplets dt rnd s) = volumePerSecond s
   \<and> surfaceN (emitDroplets dt rnd s) = surfaceN s
   \<and> surf_h (emitDroplets dt rnd s) = surf_h s
   \<and> surf_v (emitDroplets dt rnd s) = surf_v s
   \<and> streamX (emitDroplets dt rnd s) = streamX s
   \<and> isDraining (emitDroplets dt rnd s) = isDraining s
   \<and> whirlpoolActive (emitDroplets dt rnd s) = whirlpoolActive s
   \<and> whirlpoolCenter (emitDroplets dt rnd s) = whirlpoolCenter s
   \<and> whirlpoolStrength (emitDroplets dt rnd s) = whirlpoolStrength s
   \<and> drainRate (emitDroplets dt rnd s) = drainRate s
   \<and> width (emitDroplets dt rnd s) = width s
   \<and> height (emitDroplets dt rnd s) = height s"
  using emitDroplets_shape[of dt rnd s] by (elim exE) simp

lemma drainVolume_frame:
  "droplets (drainVolume dt s) = droplets s
   \<and> targetFillHeight (drainVolume dt s) = targetFillHeight s
   \<and> targetVolume (drainVolume dt s) = targetVolume s
   \<and> volumePerSecond (drainVolume dt s) = volumePerSecond s
   \<and> surfaceN (drainVolume dt s) = surfaceN s
   \<and> surf_h (drainVolume dt s) = surf_h s
   \<and> surf_v (drainVolume dt s) = surf_v s
   \<and> dropSpawnAccumulator (drainVolume dt s) = dropSpawnAccumulator s
   \<and> streamX (drainVolume dt s) = streamX s
   \<and> isDraining (drainVolume dt s) = isDraining s
   \<and> whirlpoolActive (drainVolume dt s) = whirlpoolActive s
   \<and> whirlpoolCenter (drainVolume dt s) = whirlpoolCenter s
   \<and> drainRate (drainVolume dt s) = drainRate s
   \<and> width (drainVolume dt s) = width s
   \<and> height (drainVolume dt s) = height s"
  using drainVolume_shape[of dt s] by (elim exE) simp

lemma dropletLoop_frame:
  "targetFillHeight (dropletLoop dt n s) = targetFillHeight s
   \<and> targetVolume (dropletLoop dt n s) = targetVolume s
   \<and> volumePerSecond (dropletLoop dt n s) = volumePerSecond s
   \<and> surfaceN (dropletLoop dt n s) = surfaceN s
   \<and> surf_h (dropletLoop dt n s) = surf_h s
   \<and> dropSpawnAccumulator (dropletLoop dt n s) = dropSpawnAccumulator s
   \<and> streamX (dropletLoop dt n s) = streamX s
   \<and> isDraining (dropletLoop dt n s) = isDraining s
   \<and> whirlpoolActive (dropletLoop dt n s) = whirlpoolActive s
   \<and> whirlpoolCenter (dropletLoop dt n s) = whirlpoolCenter s
   \<and> whirlpoolStrength (dropletLoop dt n s) = whirlpoolStrength s
   \<and> drainRate (dropletLoop dt n s) = drainRate s
   \<and> width (dropletLoop dt n s) = width s
   \<and> height (dropletLoop dt n s) = height s"
  using dropletLoop_shape[of dt n s] by (elim exE) simp

lemma whirlpoolSink_frame:
  "droplets (whirlpoolSink dt s) = droplets s
   \<and> waterVolume (whirlpoolSink dt s) = waterVolume s
   \<and> targetFillHeight (whirlpoolSink dt s) = targetFillHeight s
   \<and> targetVolume (whirlpoolSink dt s) = targetVolume s
   \<and> volumePerSecond (whirlpoolSink dt s) = volumePerSecond s
   \<and> surfaceN (whirlpoolSink dt s) = surfaceN s
   \<and> surf_h (whirlpoolSink dt s) = surf_h s
   \<and> dropSpawnAccumulator (whirlpoolSink dt s) = dropSpawnAccumulator s
   \<and> streamX (whirlpoolSink dt s) = streamX s
   \<and> isDraining (whirlpoolSink dt s) = isDraining s
   \<and> whirlpoolActive (whirlpoolSink dt s) = whirlpoolActive s
   \<and> whirlpoolCenter (whirlpoolSink dt s) = whirlpoolCenter s
   \<and> whirlpoolStrength (whirlpoolSink dt s) = whirlpoolStrength s
   \<and> drainRate (whirlpoolSink dt s) = drainRate s
   \<and> width (whirlpoolSink dt s) = width s
   \<and> height (whirlpoolSink dt s) = height s"
  using whirlpoolSink_shape[of dt s] by (elim exE) simp

lemma stepSurface_frame:
  "droplets (stepSurface s dt) = droplets s
   \<and> waterVolume (stepSurface s dt) = waterVolume s
   \<and> targetFillHeight (stepSurface s dt) = targetFillHeight s
   \<and> targetVolume (stepSurface s dt) = targetVolume s
   \<and> volumePerSecond (stepSurface s dt) = volumePerSecond s
   \<and> surfaceN (stepSurface s dt) = surfaceN s
   \<and> dropSpawnAccumulator (stepSurface s dt) = dropSpawnAccumulator s
   \<and> streamX (stepSurface s dt) = streamX s
   \<and> isDraining (stepSurface s dt) = isDraining s
   \<and> whirlpoolActive (stepSurface s dt) = whirlpoolActive s
   \<and> whirlpoolCenter (stepSurface s dt) = whirlpoolCenter s
   \<and> whirlpoolStrength (stepSurface s dt) = whirlpoolStrength s
   \<and> drainRate (stepSurface s dt) = drainRate s
   \<and> width (stepSurface s dt) = width s
   \<and> height (stepSurface s dt) = height s"
  using stepSurface_shape[of s dt] by (elim exE) simp

lemma autoStop_frame:
  "droplets (autoStop s) = droplets s
   \<and> waterVolume (autoStop s) = waterVolume s
   \<and> targetFillHeight (autoStop s) = targetFillHeight s
   \<and> targetVolume (autoStop s) = targetVolume s
   \<and> volumePerSecond (autoStop s) = volumePerSecond s
   \<and> surfaceN (autoStop s) = surfaceN s
   \<and> surf_h (autoStop s) = surf_h s
   \<and> surf_v (autoStop s) = surf_v s
   \<and> dropSpawnAccumulator (autoStop s) = dropSpawnAccumulator s
   \<and> streamX (autoStop s) = streamX s
   \<and> whirlpoolCenter (autoStop s) = whirlpoolCenter s
   \<and> width (autoStop s) = width s
   \<and> height (autoStop s) = height s"
  using autoStop_shape[of s] by (elim exE) simp

lemmas phase_frames =
  updateStream_frame emitDroplets_frame drainVolume_frame dropletLoop_frame
  whirlpoolSink_frame stepSurface_frame autoStop_frame

lemma update_frame:
  "volumePerSecond (update s dT now rnd) = volumePerSecond s
   \<and> targetFillHeight (update s dT now rnd) = targetFillHeight s
   \<and> targetVolume (update s dT now rnd) = targetVolume s
   \<and> surfaceN (update s dT now rnd) = surfaceN s
   \<and> whirlpoolCenter (update s dT now rnd) = whirlpoolCenter s
   \<and> width (update s dT now rnd) = width s
   \<and> height (update s dT now rnd) = height s"
proof -
  obtain s1 s2 s3 s4 s5 s6 s7 where p:
    "s1 = updateStream now s"
    "s2 = emitDroplets (clampDt dT) rnd s1"
    "s3 = drainVolume (clampDt dT) s2"
    "s4 = dropletLoop (clampDt dT) (length (droplets s3)) s3"
    "s5 = whirlpoolSink (clampDt dT) s4"
    "s6 = (if getBaseSurfaceY s3 < 0 then s5\<lparr>waterVolume := width s5 * height s5\<rparr> else s5)"
    "s7 = stepSurface s6 (clampDt dT)"
    "update s dT now rnd = autoStop s7"
    by (rule update_phases)
  show ?thesis
    unfolding p by (simp add: phase_frames)
qed

section \<open>The timestep clamp\<close>

lemma clampDt_idem: "clampDt (min 0.05 (max 0 d)) = clampDt d"
  by (simp add: clampDt_def min_def max_def)

text \<open>
  C5. Whatever \<open>deltaTime\<close> is passed, \<^verbatim>\<open>update\<close> behaves as it does on
  \<open>min 0.05 (max 0 deltaTime)\<close>. The timestep \<open>dt = max 0 (min 0.05 deltaTime)\<close> lies
  between 0 and 0.05 seconds, and it is this \<open>dt\<close>, not \<open>deltaTime\<close>, that every
  integrator of the update receives: the emission, the drain withdrawal, the droplet
  integration, the whirlpool sink and \<^verbatim>\<open>stepSurface\<close>.
\<close>

theorem update_clamps_timestep:
  "update s deltaTime now rnd = update s (min 0.05 (max 0 deltaTime)) now rnd
   \<and> (let dt = max 0 (min 0.05 deltaTime);
          s3 = drainVolume dt (emitDroplets dt rnd (updateStream now s));
          s5 = whirlpoolSink dt (dropletLoop dt (length (droplets s3)) s3);
          s6 = (if getBaseSurfaceY s3 < 0 then s5\<lparr>waterVolume := width s5 * height s5\<rparr>
                else s5)
      in 0 \<le> dt \<and> dt \<le> 0.05 \<and> update s deltaTime now rnd = autoStop (stepSurface s6 dt))"
proof
  show "update s deltaTime now rnd = update s (min 0.05 (max 0 deltaTime)) now rnd"
    unfolding update_def clampDt_idem ..
  show "let dt = max 0 (min 0.05 deltaTime);
          s3 = drainVolume dt (emitDroplets dt rnd (updateStream now s));
          s5 = whirlpoolSink dt (dropletLoop dt (length (droplets s3)) s3);
          s6 = (if getBaseSurfaceY s3 < 0 then s5\<lparr>waterVolume := width s5 * height s5\<rparr>
                else s5)
      in 0 \<le> dt \<and> dt \<le> 0.05 \<and> update s deltaTime now rnd = autoStop (stepSurface s6 dt)"
    unfolding update_def Let_def clampDt_def by (intro conjI) simp_all
qed

lemma resize_phases:
  obtains s1 s2 s3 s4 s5 where
    "s1 = s\<lparr>width := newWidth, height := newHeight\<rparr>"
    "s2 = (if targetFillHeight s1 > 0
           then s1\<lparr>targetVolume := width s1 * targetFillHeight s1\<rparr> else s1)"
    "s3 = initSurfaceField s2"
    "s4 = (if surfaceN s > 0 \<and> length (surf_h s) = surfaceN s
           then let hv = fold (resampleStep (surfaceN s3) (surfaceN s) (surf_h s) (surf_v s))
                           [0..<surfaceN s3] (surf_h s3, surf_v s3)
                in s3\<lparr>surf_h := fst hv, surf_v := snd hv\<rparr>
           else s3)"
    "s5 = s4\<lparr>droplets :=
              map (\<lambda>d. let d1 = d\<lparr>d_x := d_x d * (width s4 / max 1 (if width s \<noteq> 0 then width s else newWidth))\<rparr>
                       in d1\<lparr>d_x := max (d_r d1) (min (width s4 - d_r d1) (d_x d1))\<rparr>)
                (droplets s4)\<rparr>"
    "resize s newWidth newHeight = s5\<lparr>streamX := width s5 * 0.55\<rparr>"
  by (simp only: resize_def Let_def)

lemma resample_lengths:
  "length (fst (fold (resampleStep n oldN oldH oldV) js hv)) = length (fst hv)
   \<and> length (snd (fold (resampleStep n oldN oldH oldV) js hv)) = length (snd hv)"
  by (induction js arbitrary: hv) (simp_all add: resampleStep_def Let_def)

lemma initSurfaceField_lengths:
  "length (surf_h (initSurfaceField s)) = surfaceN (initSurfaceField s)
   \<and> length (surf_v (initSurfaceField s)) = surfaceN (initSurfaceField s)"
  by (simp add: initSurfaceField_def Let_def)

lemma resize_shape:
  "\<exists>tv n hh vv ds sx.
     resize s newWidth newHeight =
       s\<lparr>width := newWidth, height := newHeight, targetVolume := tv, surfaceN := n,
         surf_h := hh, surf_v := vv, droplets := ds, streamX := sx\<rparr>
     \<and> length hh = n \<and> length vv = n \<and> length ds = length (droplets s)
     \<and> n = nat (max 96 \<lfloor>newWidth / 3\<rfloor>)
     \<and> tv = (if targetFillHeight s > 0 then newWidth * targetFillHeight s
              else targetVolume s)"
proof -
  obtain s1 s2 s3 s4 s5 where p:
    "s1 = s\<lparr>width := newWidth, height := newHeight\<rparr>"
    "s2 = (if targetFillHeight s1 > 0
           then s1\<lparr>targetVolume := width s1 * targetFillHeight s1\<rparr> else s1)"
    "s3 = initSurfaceField s2"
    "s4 = (if surfaceN s > 0 \<and> length (surf_h s) = surfaceN s
           then let hv = fold (resampleStep (surfaceN s3) (surfaceN s) (surf_h s) (surf_v s))
                           [0..<surfaceN s3] (surf_h s3, surf_v s3)
                in s3\<lparr>surf_h := fst hv, surf_v := snd hv\<rparr>
           else s3)"
    "s5 = s4\<lparr>droplets :=
              map (\<lambda>d. let d1 = d\<lparr>d_x := d_x d * (width s4 / max 1 (if width s \<noteq> 0 then width s else newWidth))\<rparr>
                       in d1\<lparr>d_x := max (d_r d1) (min (width s4 - d_r d1) (d_x d1))\<rparr>)
                (droplets s4)\<rparr>"
    "resize s newWidth newHeight = s5\<lparr>streamX := width s5 * 0.55\<rparr>"
    by (rule resize_phases)
  have e2: "s2 = s1\<lparr>targetVolume := targetVolume s2\<rparr>"
    unfolding p(2) by simp
  have e3: "s3 = s2\<lparr>surfaceN := surfaceN s3, surf_h := surf_h s3, surf_v := surf_v s3\<rparr>"
    unfolding p(3) initSurfaceField_def Let_def by simp
  have l3: "length (surf_h s3) = surfaceN s3" "length (surf_v s3) = surfaceN s3"
    unfolding p(3) using initSurfaceField_lengths by blast+
  have e4: "s4 = s3\<lparr>surf_h := surf_h s4, surf_v := surf_v s4\<rparr>"
    unfolding p(4) Let_def by simp
  have l4: "length (surf_h s4) = surfaceN s3" "length (surf_v s4) = surfaceN s3"
    unfolding p(4) Let_def using l3 by (simp_all add: resample_lengths)
  have e5: "s5 = s4\<lparr>droplets := droplets s5\<rparr>" "length (droplets s5) = length (droplets s4)"
    unfolding p(5) by simp_all
  have d: "droplets s4 = droplets s"
    by (subst e4, subst e3, subst e2) (simp add: p(1))
  have "resize s newWidth newHeight =
       s\<lparr>width := newWidth, height := newHeight, targetVolume := targetVolume s2,
         surfaceN := surfaceN s3, surf_h := surf_h s4, surf_v := surf_v s4,
         droplets := droplets s5, streamX := width s5 * 0.55\<rparr>"
    unfolding p(6)
    by (subst (2) e5(1), subst e4, subst e3, subst e2) (simp add: p(1))
  moreover have "surfaceN s3 = nat (max 96 \<lfloor>newWidth / 3\<rfloor>)"
    unfolding p(3) initSurfaceField_def Let_def by (simp add: p(2) p(1))
  moreover have "targetVolume s2 =
      (if targetFillHeight s > 0 then newWidth * targetFillHeight s else targetVolume s)"
    by (simp add: p(2) p(1))
  ultimately show ?thesis using l4 e5(2) d by (metis (no_types))
qed

lemma resize_frame:
  "length (droplets (resize s w hgt)) = length (droplets s)
   \<and> waterVolume (resize s w hgt) = waterVolume s
   \<and> targetFillHeight (resize s w hgt) = targetFillHeight s
   \<and> volumePerSecond (resize s w hgt) = volumePerSecond s
   \<and> dropSpawnAccumulator (resize s w hgt) = dropSpawnAccumulator s
   \<and> isDraining (resize s w hgt) = isDraining s
   \<and> whirlpoolActive (resize s w hgt) = whirlpoolActive s
   \<and> width (resize s w hgt) = w
   \<and> height (resize s w hgt) = hgt
   \<and> surfaceN (resize s w hgt) = nat (max 96 \<lfloor>w / 3\<rfloor>)
   \<and> targetVolume (resize s w hgt) =
       (if targetFillHeight s > 0 then w * targetFillHeight s else targetVolume s)
   \<and> fieldOk (resize s w hgt)"
  using resize_shape[of s w hgt] by (elim exE conjE) (simp add: fieldOk_def)

lemma constructor_fields:
  "width (constructor w hgt) = w \<and> height (constructor w hgt) = hgt
   \<and> waterVolume (constructor w hgt) = 0 \<and> targetFillHeight (constructor w hgt) = 0
   \<and> targetVolume (constructor w hgt) = 0 \<and> volumePerSecond (constructor w hgt) = 0
   \<and> dropSpawnAccumulator (constructor w hgt) = 0
   \<and> \<not> isDraining (constructor w hgt) \<and> \<not> whirlpoolActive (constructor w hgt)
   \<and> droplets (constructor w hgt) = []
   \<and> surfaceN (constructor w hgt) = nat (max 96 \<lfloor>w / 3\<rfloor>)"
  using resize_frame[of fresh w hgt] by (simp add: constructor_def fresh_def)

section \<open>Invariants of the reachable states\<close>

lemma run_invariant:
  assumes "P s" and step: "\<And>s c. P s \<Longrightarrow> P (perform s c)"
  shows "P (run s cs)"
  using assms(1) unfolding run_def
  by (induction cs arbitrary: s) (simp_all add: step)

subsection \<open>The emission rate\<close>

lemma resize_volumePerSecond: "volumePerSecond (resize s w hgt) = volumePerSecond s"
  by (simp add: resize_frame)

lemma perform_volumePerSecond:
  "0 \<le> volumePerSecond s \<Longrightarrow> 0 \<le> volumePerSecond (perform s c)"
  by (cases c)
     (simp_all add: resize_volumePerSecond setTargetFillHeight_def setEmission_def
        reset_def update_frame startDraining_def)

lemma constructor_volumePerSecond: "volumePerSecond (constructor w hgt) = 0"
  by (simp add: constructor_def resize_volumePerSecond fresh_def)

text \<open>
  C10. \<^verbatim>\<open>setEmission(v)\<close> stores \<open>max 0 v\<close>, so a negative request is stored as 0,
  and the emission rate is not negative in any state that a sequence of calls reaches
  from the constructor.
\<close>

theorem setEmission_stores_clamped_rate:
  "volumePerSecond (setEmission s vps) = max 0 vps
   \<and> 0 \<le> volumePerSecond (run (constructor w hgt) cs)"
proof
  show "volumePerSecond (setEmission s vps) = max 0 vps"
    by (simp add: setEmission_def)
  show "0 \<le> volumePerSecond (run (constructor w hgt) cs)"
    by (rule run_invariant) (simp_all add: constructor_volumePerSecond perform_volumePerSecond)
qed

subsection \<open>The droplet cap\<close>

lemma spawnDroplet_cases:
  "(if maxDroplets \<le> length (droplets s) then spawnDroplet rnd (s, k) = (s, k)
    else length (droplets (fst (spawnDroplet rnd (s, k)))) = Suc (length (droplets s)))"
  by (simp add: spawnDroplet_def Let_def)

lemma spawnDroplet_length:
  "length (droplets (fst (spawnDroplet rnd sk))) \<le> max maxDroplets (length (droplets (fst sk)))"
  using spawnDroplet_cases[of "fst sk" rnd "snd sk"]
  by (cases "maxDroplets \<le> length (droplets (fst sk))") simp_all

lemma spawnLoop_length:
  "length (droplets (fst (spawnLoop rnd sk))) \<le> max maxDroplets (length (droplets (fst sk)))"
proof (induction rnd sk rule: spawnLoop.induct)
  case (1 rnd sk)
  show ?case
  proof (cases "dropSpawnAccumulator (fst sk) \<ge> 1")
    case False
    then show ?thesis by (subst spawnLoop.simps) simp
  next
    case True
    define sk' where "sk' = spawnDroplet rnd sk"
    define nxt where
      "nxt = (fst sk'\<lparr>dropSpawnAccumulator := dropSpawnAccumulator (fst sk') - 1\<rparr>, snd sk')"
    have ih: "length (droplets (fst (spawnLoop rnd nxt)))
                \<le> max maxDroplets (length (droplets (fst nxt)))"
      using "1.IH"[OF True sk'_def] unfolding nxt_def .
    have "spawnLoop rnd sk = spawnLoop rnd nxt"
      using True by (subst spawnLoop.simps) (simp add: nxt_def sk'_def Let_def)
    moreover have "length (droplets (fst nxt)) \<le> max maxDroplets (length (droplets (fst sk)))"
      using spawnDroplet_length[of rnd sk] by (simp add: nxt_def sk'_def)
    ultimately show ?thesis using ih by simp
  qed
qed

lemma emitDroplets_length:
  "length (droplets (emitDroplets dt rnd s)) \<le> max maxDroplets (length (droplets s))"
proof (cases "\<not> isDraining s \<and> \<not> whirlpoolActive s \<and> volumePerSecond s > 0")
  case True
  then show ?thesis
    using spawnLoop_length[of rnd
        "(s\<lparr>dropSpawnAccumulator := dropSpawnAccumulator s + dropsPerSecond * dt\<rparr>, 0)"]
    by (simp add: emitDroplets_def)
next
  case False
  then show ?thesis by (auto simp: emitDroplets_def)
qed

lemma length_splice1: "length (splice1 i a) \<le> length a"
  by (simp add: splice1_def)

lemma addRippleImpulse_frame:
  "droplets (addRippleImpulse s x st) = droplets s
   \<and> waterVolume (addRippleImpulse s x st) = waterVolume s
   \<and> targetVolume (addRippleImpulse s x st) = targetVolume s
   \<and> surfaceN (addRippleImpulse s x st) = surfaceN s
   \<and> surf_h (addRippleImpulse s x st) = surf_h s
   \<and> width (addRippleImpulse s x st) = width s
   \<and> height (addRippleImpulse s x st) = height s"
  using addRippleImpulse_shape[of s x st] by (elim exE) simp

lemma dropletBody_droplets:
  "droplets (dropletBody dt i s) =
     (let d = stepDroplet dt (width s) (droplets s ! i)
      in if d_y d + d_r d \<ge> getSurfaceY s (d_x d) \<or> d_y d > height s + 120
         then splice1 i (droplets s) else (droplets s)[i := d])"
  unfolding dropletBody_def Let_def
  by (simp add: addRippleImpulse_frame)

lemma dropletBody_length: "length (droplets (dropletBody dt i s)) \<le> length (droplets s)"
  unfolding dropletBody_droplets Let_def
  by (simp add: length_splice1)

lemma dropletLoop_length: "length (droplets (dropletLoop dt n s)) \<le> length (droplets s)"
proof (induction n arbitrary: s)
  case 0
  show ?case by simp
next
  case (Suc n)
  have "length (droplets (dropletLoop dt n (dropletBody dt n s)))
          \<le> length (droplets (dropletBody dt n s))"
    by (rule Suc.IH)
  also have "\<dots> \<le> length (droplets s)" by (rule dropletBody_length)
  finally show ?case by simp
qed

lemma update_droplets:
  "droplets (update s dT now rnd) =
     droplets (dropletLoop (clampDt dT)
       (length (droplets (emitDroplets (clampDt dT) rnd (updateStream now s))))
       (drainVolume (clampDt dT) (emitDroplets (clampDt dT) rnd (updateStream now s))))"
proof -
  obtain s1 s2 s3 s4 s5 s6 s7 where p:
    "s1 = updateStream now s"
    "s2 = emitDroplets (clampDt dT) rnd s1"
    "s3 = drainVolume (clampDt dT) s2"
    "s4 = dropletLoop (clampDt dT) (length (droplets s3)) s3"
    "s5 = whirlpoolSink (clampDt dT) s4"
    "s6 = (if getBaseSurfaceY s3 < 0 then s5\<lparr>waterVolume := width s5 * height s5\<rparr> else s5)"
    "s7 = stepSurface s6 (clampDt dT)"
    "update s dT now rnd = autoStop s7"
    by (rule update_phases)
  show ?thesis
    unfolding p by (simp add: phase_frames)
qed

lemma update_length:
  "length (droplets (update s dT now rnd)) \<le> max maxDroplets (length (droplets s))"
proof -
  have "length (droplets (update s dT now rnd))
          \<le> length (droplets (emitDroplets (clampDt dT) rnd (updateStream now s)))"
    unfolding update_droplets
    using dropletLoop_length[of "clampDt dT" _
            "drainVolume (clampDt dT) (emitDroplets (clampDt dT) rnd (updateStream now s))"]
    by (simp add: phase_frames)
  also have "\<dots> \<le> max maxDroplets (length (droplets (updateStream now s)))"
    by (rule emitDroplets_length)
  finally show ?thesis by (simp add: phase_frames)
qed

lemma resize_length: "length (droplets (resize s w hgt)) = length (droplets s)"
  by (simp add: resize_frame)

lemma perform_length:
  "length (droplets (perform s c)) \<le> max maxDroplets (length (droplets s))"
  by (cases c)
     (simp_all add: resize_length setTargetFillHeight_def setEmission_def
        reset_def update_length startDraining_def)

lemma constructor_droplets: "droplets (constructor w hgt) = []"
  using resize_length[of fresh w hgt] by (simp add: constructor_def fresh_def)

text \<open>
  C6. In every state that a sequence of calls reaches from the constructor, the list
  of active droplets has at most \<open>maxDroplets = 1400\<close> entries. \<^verbatim>\<open>spawnDroplet\<close>
  leaves the state as it is when the list has reached the cap and adds one droplet
  otherwise; \<^verbatim>\<open>update\<close> never takes the list above the larger of the cap and its
  previous length; the other calls add no droplet.
\<close>

theorem droplet_count_capped:
  "length (droplets (run (constructor w hgt) cs)) \<le> maxDroplets
   \<and> maxDroplets = 1400
   \<and> (if maxDroplets \<le> length (droplets s) then spawnDroplet rnd (s, k) = (s, k)
      else length (droplets (fst (spawnDroplet rnd (s, k)))) = Suc (length (droplets s)))
   \<and> length (droplets (update s dT now rnd)) \<le> max maxDroplets (length (droplets s))
   \<and> length (droplets (resize s w' hgt')) = length (droplets s)
   \<and> droplets (setTargetFillHeight s a) = droplets s
   \<and> droplets (setEmission s a) = droplets s
   \<and> droplets (startDraining s) = droplets s
   \<and> droplets (reset s) = []"
proof (intro conjI)
  have step: "length (droplets (perform s c)) \<le> maxDroplets"
    if "length (droplets s) \<le> maxDroplets" for s c
    using perform_length[of s c] that by simp
  have init: "length (droplets (constructor w hgt)) \<le> maxDroplets"
    by (simp add: constructor_droplets)
  show "length (droplets (run (constructor w hgt) cs)) \<le> maxDroplets"
    using init step by (rule run_invariant[where P = "\<lambda>s. length (droplets s) \<le> maxDroplets"])
  show "maxDroplets = 1400" by (simp add: maxDroplets_def)
  show "if maxDroplets \<le> length (droplets s) then spawnDroplet rnd (s, k) = (s, k)
      else length (droplets (fst (spawnDroplet rnd (s, k)))) = Suc (length (droplets s))"
    by (rule spawnDroplet_cases)
  show "length (droplets (update s dT now rnd)) \<le> max maxDroplets (length (droplets s))"
    by (rule update_length)
  show "length (droplets (resize s w' hgt')) = length (droplets s)"
    by (rule resize_length)
qed (simp_all add: setTargetFillHeight_def setEmission_def startDraining_def reset_def)

section \<open>The heightfield step, sample by sample\<close>

text \<open>
  A loop over the indices \<open>a, \<dots>, b - 1\<close> that rewrites the entry at its own index
  from the old entry there leaves a list that is known entry by entry.
\<close>

lemma fold_index_update:
  assumes step: "\<And>i xs. f i xs = xs[i := g i (xs ! i)]"
  shows "b \<le> length xs \<Longrightarrow>
         fold f [a..<b] xs =
           map (\<lambda>j. if a \<le> j \<and> j < b then g j (xs ! j) else xs ! j) [0..<length xs]"
proof (induction b)
  case 0
  show ?case by (simp add: map_nth)
next
  case (Suc b)
  show ?case
  proof (cases "a \<le> b")
    case False
    then show ?thesis by (intro nth_equalityI) auto
  next
    case True
    let ?ys = "map (\<lambda>j. if a \<le> j \<and> j < b then g j (xs ! j) else xs ! j) [0..<length xs]"
    have ih: "fold f [a..<b] xs = ?ys" using Suc by simp
    have b: "b < length xs" using Suc.prems by simp
    have "fold f [a..<Suc b] xs = f b (fold f [a..<b] xs)"
      using True by simp
    also have "\<dots> = ?ys[b := g b (?ys ! b)]" by (simp only: ih step)
    also have "\<dots> = map (\<lambda>j. if a \<le> j \<and> j < Suc b then g j (xs ! j) else xs ! j)
                        [0..<length xs]"
      using b True by (intro nth_equalityI) (auto simp: nth_list_update less_Suc_eq)
    finally show ?thesis .
  qed
qed

lemma fold_dampStep:
  "n \<le> length hh \<Longrightarrow> n \<le> length vv \<Longrightarrow>
   fold (dampStep damp dt) [0..<n] (hh, vv) =
     (map (\<lambda>j. if j < n then hh ! j + vv ! j * damp * dt else hh ! j) [0..<length hh],
      map (\<lambda>j. if j < n then vv ! j * damp else vv ! j) [0..<length vv])"
proof (induction n)
  case 0
  show ?case by (simp add: map_nth)
next
  case (Suc n)
  let ?hs = "map (\<lambda>j. if j < n then hh ! j + vv ! j * damp * dt else hh ! j) [0..<length hh]"
  let ?vs = "map (\<lambda>j. if j < n then vv ! j * damp else vv ! j) [0..<length vv]"
  have ih: "fold (dampStep damp dt) [0..<n] (hh, vv) = (?hs, ?vs)" using Suc by simp
  have n: "n < length hh" "n < length vv" using Suc.prems by simp_all
  have "fold (dampStep damp dt) [0..<Suc n] (hh, vv) = dampStep damp dt n (?hs, ?vs)"
    by (simp add: ih)
  also have "\<dots> = (?hs[n := ?hs ! n + (?vs[n := ?vs ! n * damp]) ! n * dt],
                     ?vs[n := ?vs ! n * damp])"
    by (simp add: dampStep_def Let_def)
  also have "?vs[n := ?vs ! n * damp] =
      map (\<lambda>j. if j < Suc n then vv ! j * damp else vv ! j) [0..<length vv]"
    using n by (intro nth_equalityI) (auto simp: nth_list_update less_Suc_eq)
  also have "?hs[n := ?hs ! n + (map (\<lambda>j. if j < Suc n then vv ! j * damp else vv ! j)
                                   [0..<length vv]) ! n * dt] =
      map (\<lambda>j. if j < Suc n then hh ! j + vv ! j * damp * dt else hh ! j) [0..<length hh]"
    using n by (intro nth_equalityI) (auto simp: nth_list_update less_Suc_eq)
  finally show ?case .
qed

lemma fold_lapStep:
  "b \<le> length vv \<Longrightarrow>
   fold (lapStep c2 dx dt hh) [a..<b] vv =
     map (\<lambda>j. if a \<le> j \<and> j < b
              then vv ! j + c2 * ((hh ! (j - 1) + hh ! (j + 1) - 2 * hh ! j) / (dx * dx)) * dt
              else vv ! j) [0..<length vv]"
  by (rule fold_index_update
        [where f = "lapStep c2 dx dt hh"
           and g = "\<lambda>i x. x + c2 * ((hh ! (i - 1) + hh ! (i + 1) - 2 * hh ! i) / (dx * dx)) * dt"])
     (simp_all add: lapStep_def Let_def)

lemma fold_blurStep:
  "b \<le> length tmp \<Longrightarrow>
   fold (blurStep a hh) [lo..<b] tmp =
     map (\<lambda>j. if lo \<le> j \<and> j < b
              then hh ! j * (1 - a) + (hh ! (j - 1) + hh ! (j + 1)) * (a * 0.5)
              else tmp ! j) [0..<length tmp]"
  by (rule fold_index_update
        [where f = "blurStep a hh"
           and g = "\<lambda>i x. hh ! i * (1 - a) + (hh ! (i - 1) + hh ! (i + 1)) * (a * 0.5)"])
     (simp_all add: blurStep_def)

lemma damped_pair:
  assumes "fieldOk s" "surfaceN s > 2"
  shows "fold (dampStep (exp (- waveDamping * dt)) dt) [0..<surfaceN s]
           (surf_h s,
            fold (lapStep (waveSpeed * waveSpeed) (width s / real (surfaceN s - 1)) dt (surf_h s))
              [1..<surfaceN s - 1] (surf_v s))
         = (map (specHeight s dt) [0..<surfaceN s], map (specVelocity s dt) [0..<surfaceN s])"
proof -
  let ?n = "surfaceN s"
  let ?dx = "width s / real (?n - 1)"
  let ?c2 = "waveSpeed * waveSpeed"
  let ?damp = "exp (- waveDamping * dt)"
  have len: "length (surf_h s) = ?n" "length (surf_v s) = ?n"
    using assms(1) by (simp_all add: fieldOk_def)
  define v1 where "v1 = fold (lapStep ?c2 ?dx dt (surf_h s)) [1..<?n - 1] (surf_v s)"
  have v1: "v1 = map (\<lambda>j. if 1 \<le> j \<and> j < ?n - 1
                          then surf_v s ! j + ?c2 * ((surf_h s ! (j - 1) + surf_h s ! (j + 1)
                                 - 2 * surf_h s ! j) / (?dx * ?dx)) * dt
                          else surf_v s ! j) [0..<?n]"
    unfolding v1_def using fold_lapStep[of "?n - 1" "surf_v s" ?c2 ?dx dt "surf_h s" 1]
    by (simp add: len)
  have lv1: "length v1 = ?n" by (simp add: v1)
  have vel: "v1 ! j * ?damp = specVelocity s dt j" if "j < ?n" for j
    using that
    by (auto simp: v1 specVelocity_def Let_def centralLaplacian_def power2_eq_square
          algebra_simps)
  have "fold (dampStep ?damp dt) [0..<?n] (surf_h s, v1) =
        (map (\<lambda>j. if j < ?n then surf_h s ! j + v1 ! j * ?damp * dt else surf_h s ! j) [0..<?n],
         map (\<lambda>j. if j < ?n then v1 ! j * ?damp else v1 ! j) [0..<?n])"
    using fold_dampStep[of ?n "surf_h s" v1 ?damp dt] by (simp add: len lv1)
  also have "map (\<lambda>j. if j < ?n then v1 ! j * ?damp else v1 ! j) [0..<?n]
             = map (specVelocity s dt) [0..<?n]"
    using vel by (intro nth_equalityI) simp_all
  also have "map (\<lambda>j. if j < ?n then surf_h s ! j + v1 ! j * ?damp * dt else surf_h s ! j) [0..<?n]
             = map (specHeight s dt) [0..<?n]"
    using vel by (intro nth_equalityI) (simp_all add: specHeight_def)
  finally show ?thesis unfolding v1_def .
qed

lemma stepSurface_eq_spec:
  assumes "surfaceN s > 2" and "fieldOk s"
  shows "stepSurface s dt = specStepSurface s dt"
proof -
  let ?n = "surfaceN s"
  let ?h2 = "map (specHeight s dt) [0..<?n]"
  let ?tmp1 = "((replicate ?n 0)[0 := ?h2 ! 0])[?n - 1 := ?h2 ! (?n - 1)]"
  have step: "stepSurface s dt =
      s\<lparr>surf_h := fold (blurStep surfaceViscosity ?h2) [1..<?n - 1] ?tmp1,
        surf_v := map (specVelocity s dt) [0..<?n]\<rparr>"
    using assms(1) damped_pair[OF assms(2) assms(1), of dt]
    by (simp add: stepSurface_def Let_def surfaceViscosity_def)
  have "fold (blurStep surfaceViscosity ?h2) [1..<?n - 1] ?tmp1 =
        map (\<lambda>j. if 1 \<le> j \<and> j < ?n - 1
                 then ?h2 ! j * (1 - surfaceViscosity)
                      + (?h2 ! (j - 1) + ?h2 ! (j + 1)) * (surfaceViscosity * 0.5)
                 else ?tmp1 ! j) [0..<?n]"
    using fold_blurStep[of "?n - 1" ?tmp1 surfaceViscosity ?h2 1] by simp
  also have "\<dots> = map (specBlur s dt) [0..<?n]"
    using assms(1)
    by (intro nth_equalityI) (auto simp: specBlur_def nth_list_update algebra_simps)
  finally show ?thesis
    unfolding step specStepSurface_def by simp
qed

text \<open>
  C8. With more than two samples, both arrays holding \<open>surfaceN\<close> entries and a
  scene width other than 0 (so that the sample spacing \<open>dx\<close> is not 0),
  \<^verbatim>\<open>stepSurface(dt)\<close> leaves exactly the heightfield of the specification: interior
  velocities gain \<open>c\<^sup>2 dt\<close> times the central-difference Laplacian and the velocities
  of samples 0 and \<open>N - 1\<close> gain nothing, every velocity is multiplied by
  \<open>exp (- waveDamping dt)\<close>, every height advances by its new velocity times \<open>dt\<close>,
  and one blur pass averages the interior heights with their neighbours and keeps the
  two boundary heights. No other field changes.
\<close>

theorem stepSurface_meets_spec:
  assumes "surfaceN s > 2" and "fieldOk s" and "width s \<noteq> 0"
  shows "stepSurface s dt = specStepSurface s dt"
  using assms(1,2) by (rule stepSurface_eq_spec)

lemma bumpScene_fields:
  "surfaceN bumpScene = 100 \<and> width bumpScene = 300
   \<and> surf_h bumpScene = (replicate 100 0)[49 := 1]
   \<and> surf_v bumpScene = (replicate 100 0)[49 := 40]"
  by (simp add: bumpScene_def constructor_fields)

text \<open>
  The step on a field that is not at rest: sample 49 loses velocity to the Laplacian,
  its neighbours gain, everything is damped, and the blur spreads the heights.
\<close>

theorem stepSurface_meets_spec_witness:
  "surfaceN bumpScene = 100 \<and> fieldOk bumpScene \<and> width bumpScene = 300
   \<and> surf_h bumpScene ! 49 = 1 \<and> surf_v bumpScene ! 49 = 40
   \<and> stepSurface bumpScene 0.016 = specStepSurface bumpScene 0.016
   \<and> surf_v (stepSurface bumpScene 0.016) ! 0 = 0
   \<and> surf_v (stepSurface bumpScene 0.016) ! 48 = 2405601 / 25000 * exp (- (27 / 1250))
   \<and> surf_v (stepSurface bumpScene 0.016) ! 49 = - (1905601 / 12500) * exp (- (27 / 1250))
   \<and> surf_h (stepSurface bumpScene 0.016) ! 0 = 0
   \<and> surf_h (stepSurface bumpScene 0.016) ! 48
       = 1 / 100 + 14496106 / 9765625 * exp (- (27 / 1250))
   \<and> surf_h (stepSurface bumpScene 0.016) ! 49
       = 49 / 50 - 184343297 / 78125000 * exp (- (27 / 1250))"
proof -
  note f = bumpScene_fields
  have n: "surfaceN bumpScene > 2" by (simp add: f)
  have ok: "fieldOk bumpScene" by (simp add: fieldOk_def f)
  have w: "width bumpScene \<noteq> 0" by (simp add: f)
  have e: "stepSurface bumpScene 0.016 = specStepSurface bumpScene 0.016"
    using n ok w by (rule stepSurface_meets_spec)
  have v: "specVelocity bumpScene (2 / 125) 0 = 0"
    "specVelocity bumpScene (2 / 125) 47 = 0"
    "specVelocity bumpScene (2 / 125) 48 = 2405601 / 25000 * exp (- (27 / 1250))"
    "specVelocity bumpScene (2 / 125) 49 = - (1905601 / 12500) * exp (- (27 / 1250))"
    "specVelocity bumpScene (2 / 125) 50 = 2405601 / 25000 * exp (- (27 / 1250))"
    unfolding specVelocity_def Let_def centralLaplacian_def
    by (simp_all add: f waveSpeed_def waveDamping_def power2_eq_square)
  have h: "specHeight bumpScene (2 / 125) 0 = 0"
    "specHeight bumpScene (2 / 125) 47 = 0"
    "specHeight bumpScene (2 / 125) 48 = 2405601 / 25000 * exp (- (27 / 1250)) * (2 / 125)"
    "specHeight bumpScene (2 / 125) 49 = 1 - (1905601 / 12500) * exp (- (27 / 1250)) * (2 / 125)"
    "specHeight bumpScene (2 / 125) 50 = 2405601 / 25000 * exp (- (27 / 1250)) * (2 / 125)"
    unfolding specHeight_def v by (simp_all add: f)
  have b: "specBlur bumpScene (2 / 125) 0 = 0"
    "specBlur bumpScene (2 / 125) 48 = 1 / 100 + 14496106 / 9765625 * exp (- (27 / 1250))"
    "specBlur bumpScene (2 / 125) 49 = 49 / 50 - 184343297 / 78125000 * exp (- (27 / 1250))"
    unfolding specBlur_def by (simp_all add: h f surfaceViscosity_def algebra_simps)
  have dt: "(0.016 :: real) = 2 / 125" by simp
  show ?thesis
    unfolding e unfolding dt
    by (simp add: specStepSurface_def f ok v b)
qed

section \<open>The lengths of the heightfield arrays\<close>

lemma length_add_at: "length (add_at a i x) = length a"
  by (simp add: add_at_def)

lemma addRippleImpulse_fieldOk: "fieldOk s \<Longrightarrow> fieldOk (addRippleImpulse s x st)"
  by (simp add: fieldOk_def addRippleImpulse_def Let_def length_add_at)

lemma dropletBody_fieldOk: "fieldOk s \<Longrightarrow> fieldOk (dropletBody dt i s)"
proof -
  assume ok: "fieldOk s"
  have ok': "fieldOk (addRippleImpulse (s\<lparr>waterVolume := wv\<rparr>) x st)" for wv x st
    by (rule addRippleImpulse_fieldOk) (use ok in \<open>simp add: fieldOk_def\<close>)
  have upd: "fieldOk (t\<lparr>droplets := ds\<rparr>) = fieldOk t" for t ds
    by (simp add: fieldOk_def)
  show ?thesis
    unfolding dropletBody_def Let_def
    by (simp only: upd ok ok' if_split) simp
qed

lemma dropletLoop_fieldOk: "fieldOk s \<Longrightarrow> fieldOk (dropletLoop dt n s)"
  by (induction n arbitrary: s) (simp_all add: dropletBody_fieldOk)

lemma length_fold_sinkStep: "length (fold (sinkStep n idx sink dt) ks vv) = length vv"
  by (induction ks arbitrary: vv) (simp_all add: sinkStep_def Let_def)

lemma whirlpoolSink_length: "length (surf_v (whirlpoolSink dt s)) = length (surf_v s)"
proof (cases "whirlpoolActive s")
  case True
  have sel: "surf_v (t\<lparr>surf_v := a\<rparr>) = a" for t :: state and a
    by simp
  from True have "surf_v (whirlpoolSink dt s) =
      fold (sinkStep (surfaceN s) (xToIndex s (fst (whirlpoolCenter s)))
              (- 1600 * whirlpoolStrength s) dt) [- 28..28] (surf_v s)"
    unfolding whirlpoolSink_def Let_def by (simp only: if_True sel)
  then show ?thesis by (simp only: length_fold_sinkStep)
next
  case False
  then show ?thesis by (simp add: whirlpoolSink_def)
qed

lemma whirlpoolSink_fieldOk: "fieldOk s \<Longrightarrow> fieldOk (whirlpoolSink dt s)"
  by (simp add: fieldOk_def whirlpoolSink_length whirlpoolSink_frame)

lemma stepSurface_fieldOk: "fieldOk s \<Longrightarrow> fieldOk (stepSurface s dt)"
proof (cases "surfaceN s > 2")
  case False
  assume "fieldOk s"
  with False show ?thesis by (simp add: stepSurface_def)
next
  case True
  assume "fieldOk s"
  with True have "stepSurface s dt = specStepSurface s dt"
    by (rule stepSurface_eq_spec)
  then show ?thesis by (simp add: specStepSurface_def fieldOk_def)
qed

lemma reset_fieldOk: "fieldOk s \<Longrightarrow> fieldOk (reset s)"
  by (simp add: fieldOk_def reset_def)

lemma update_fieldOk: "fieldOk s \<Longrightarrow> fieldOk (update s dT now rnd)"
proof -
  assume ok: "fieldOk s"
  obtain s1 s2 s3 s4 s5 s6 s7 where p:
    "s1 = updateStream now s"
    "s2 = emitDroplets (clampDt dT) rnd s1"
    "s3 = drainVolume (clampDt dT) s2"
    "s4 = dropletLoop (clampDt dT) (length (droplets s3)) s3"
    "s5 = whirlpoolSink (clampDt dT) s4"
    "s6 = (if getBaseSurfaceY s3 < 0 then s5\<lparr>waterVolume := width s5 * height s5\<rparr> else s5)"
    "s7 = stepSurface s6 (clampDt dT)"
    "update s dT now rnd = autoStop s7"
    by (rule update_phases)
  have "fieldOk s3"
    using ok unfolding p fieldOk_def by (simp add: phase_frames)
  then have "fieldOk s4" unfolding p(4) by (rule dropletLoop_fieldOk)
  then have "fieldOk s5" unfolding p(5) by (rule whirlpoolSink_fieldOk)
  then have "fieldOk s6" unfolding p(6) by (simp add: fieldOk_def)
  then have "fieldOk s7" unfolding p(7) by (rule stepSurface_fieldOk)
  then show ?thesis unfolding p(8) fieldOk_def by (simp add: phase_frames)
qed

lemma perform_fieldOk: "fieldOk s \<Longrightarrow> fieldOk (perform s c)"
proof (cases c)
  case (Resize w hgt)
  then show ?thesis by (simp add: resize_frame)
next
  case (Update dT now rnd)
  assume "fieldOk s"
  with Update show ?thesis by (simp add: update_fieldOk)
next
  case Reset
  assume "fieldOk s"
  with Reset show ?thesis by (simp add: reset_fieldOk)
qed (simp_all add: fieldOk_def setTargetFillHeight_def setEmission_def startDraining_def)

text \<open>
  C9. Both arrays of the heightfield have \<open>surfaceN\<close> entries after
  \<^verbatim>\<open>initSurfaceField\<close> and after \<^verbatim>\<open>resize\<close>, whatever the state before; in every
  state that a sequence of calls reaches from the constructor; and, when they have
  before, after \<^verbatim>\<open>stepSurface\<close>, after \<^verbatim>\<open>addRippleImpulse\<close>, after the whirlpool sink
  and after \<^verbatim>\<open>reset\<close>.
\<close>

theorem heightfield_lengths_invariant:
  "fieldOk (initSurfaceField s0) \<and> fieldOk (resize s0 w hgt)
   \<and> fieldOk (run (constructor w hgt) cs)
   \<and> (fieldOk s \<longrightarrow>
        fieldOk (stepSurface s dt) \<and> fieldOk (addRippleImpulse s x strength)
        \<and> fieldOk (whirlpoolSink dt s) \<and> fieldOk (reset s))"
proof (intro conjI impI)
  show "fieldOk (initSurfaceField s0)"
    by (simp add: fieldOk_def initSurfaceField_def Let_def)
  show "fieldOk (resize s0 w hgt)" by (simp add: resize_frame)
  have "fieldOk (constructor w hgt)" by (simp add: constructor_def resize_frame)
  then show "fieldOk (run (constructor w hgt) cs)"
    by (rule run_invariant) (rule perform_fieldOk)
qed (simp_all add: stepSurface_fieldOk addRippleImpulse_fieldOk whirlpoolSink_fieldOk
       reset_fieldOk)

theorem heightfield_lengths_invariant_witness:
  "fieldOk (constructor 300 100)
   \<and> fieldOk (stepSurface (constructor 300 100) 0.016)
   \<and> fieldOk (addRippleImpulse (constructor 300 100) 150 40)
   \<and> fieldOk (whirlpoolSink 0.016 (constructor 300 100))
   \<and> fieldOk (reset (constructor 300 100))
   \<and> length (surf_h (constructor 300 100)) = 100
   \<and> length (surf_v (constructor 300 100)) = 100
   \<and> surfaceN (constructor 300 100) = 100"
proof -
  have ok: "fieldOk (constructor 300 100)"
    using heightfield_lengths_invariant[of fresh 300 100 "[]"]
    by (simp add: constructor_def)
  have n: "surfaceN (constructor 300 100) = 100"
    by (simp add: constructor_def resize_frame)
  show ?thesis
    using heightfield_lengths_invariant[of fresh 300 100 "[]" "constructor 300 100"
            "0.016" 150 40] ok n
    by (simp add: fieldOk_def)
qed

section \<open>The water height\<close>

text \<open>
  C2, as the code has it. In a scene of positive width the water height is the smaller
  of a ceiling and \<open>waterVolume / width\<close>; the ceiling is \<open>targetFillHeight\<close> when
  that is not 0 and the scene height when it is 0. In a scene of width 0 or less the
  water height is 0.
\<close>

theorem getWaterHeight_value:
  "(0 < width s \<and> targetFillHeight s \<noteq> 0 \<longrightarrow>
      getWaterHeight s = min (targetFillHeight s) (waterVolume s / width s))
   \<and> (0 < width s \<and> targetFillHeight s = 0 \<longrightarrow>
      getWaterHeight s = min (height s) (waterVolume s / width s))
   \<and> (width s \<le> 0 \<longrightarrow> getWaterHeight s = 0)"
  by (simp add: getWaterHeight_def)

theorem getWaterHeight_value_witness:
  "getWaterHeight ((constructor 10 50)\<lparr>targetFillHeight := 50, waterVolume := 100\<rparr>) = 10
   \<and> getWaterHeight ((constructor 10 50)\<lparr>targetFillHeight := 50, waterVolume := 700\<rparr>) = 50
   \<and> getWaterHeight ((constructor 10 50)\<lparr>waterVolume := 100\<rparr>) = 10
   \<and> getWaterHeight ((constructor 0 50)\<lparr>waterVolume := 100\<rparr>) = 0"
  using getWaterHeight_value[of "(constructor 10 50)\<lparr>targetFillHeight := 50, waterVolume := 100\<rparr>"]
        getWaterHeight_value[of "(constructor 10 50)\<lparr>targetFillHeight := 50, waterVolume := 700\<rparr>"]
        getWaterHeight_value[of "(constructor 10 50)\<lparr>waterVolume := 100\<rparr>"]
        getWaterHeight_value[of "(constructor 0 50)\<lparr>waterVolume := 100\<rparr>"]
  by (simp add: constructor_fields)

text \<open>
  The claim as stated fails where the target height is 0: in a scene 10 wide and 50
  high holding the volume 100, \<^verbatim>\<open>getWaterHeight\<close> returns 10, not
  \<open>min 0 (100 / 10) = 0\<close>.
\<close>

theorem getWaterHeight_counterexample:
  "getWaterHeight ((constructor 10 50)\<lparr>waterVolume := 100\<rparr>) = 10
   \<and> min (targetFillHeight ((constructor 10 50)\<lparr>waterVolume := 100\<rparr>))
          (waterVolume ((constructor 10 50)\<lparr>waterVolume := 100\<rparr>)
             / width ((constructor 10 50)\<lparr>waterVolume := 100\<rparr>)) = 0"
  by (simp add: getWaterHeight_def constructor_fields)

section \<open>Droplets and the side boundaries\<close>

lemma stepDroplet_r: "d_r (stepDroplet dt w d) = d_r d"
  by (simp add: stepDroplet_def Let_def)

lemma stepDroplet_vol: "d_vol (stepDroplet dt w d) = d_vol d"
  by (simp add: stepDroplet_def Let_def)

lemma stepDroplet_py: "d_py (stepDroplet dt w d) = d_y d"
  by (simp add: stepDroplet_def Let_def)

lemma stepDroplet_y:
  "d_y (stepDroplet dt w d) = d_y d + (d_vy d + gravity * dt) * airDrag * dt"
  by (simp add: stepDroplet_def Let_def)

lemma stepDroplet_x_range:
  "0 \<le> d_r d \<Longrightarrow> d_r d \<le> w \<Longrightarrow>
   0 \<le> d_x (stepDroplet dt w d) \<and> d_x (stepDroplet dt w d) \<le> w"
  by (simp add: stepDroplet_def Let_def)

lemma set_splice1: "set (splice1 i a) \<subseteq> set (take i a) \<union> set (drop (Suc i) a)"
  by (simp add: splice1_def)

text \<open>
  After the loop has run over the indices below \<open>n\<close>, every droplet left in the list
  is the integrated form of one of the first \<open>n\<close> droplets, or one of the droplets
  from index \<open>n\<close> on, untouched.
\<close>

lemma dropletLoop_survivors:
  "n \<le> length (droplets s) \<Longrightarrow>
   set (droplets (dropletLoop dt n s))
     \<subseteq> stepDroplet dt (width s) ` set (take n (droplets s)) \<union> set (drop n (droplets s))"
proof (induction n arbitrary: s)
  case 0
  show ?case by simp
next
  case (Suc n)
  let ?ds = "droplets s"
  let ?d = "stepDroplet dt (width s) (?ds ! n)"
  let ?s' = "dropletBody dt n s"
  have n: "n < length ?ds" using Suc.prems by simp
  have w: "width ?s' = width s"
    using dropletBody_shape[of dt n s] by (elim exE) simp
  have cases: "droplets ?s' = splice1 n ?ds \<or> droplets ?s' = ?ds[n := ?d]"
    unfolding dropletBody_droplets Let_def by simp
  have tk: "take n (droplets ?s') = take n ?ds"
    using cases n by (auto simp: splice1_def)
  have dr: "set (drop n (droplets ?s')) \<subseteq> {?d} \<union> set (drop (Suc n) ?ds)"
    using cases n by (auto simp: splice1_def drop_update_cancel Cons_nth_drop_Suc[symmetric]
        dest: in_set_dropD)
  have len: "n \<le> length (droplets ?s')"
    using cases n by (auto simp: splice1_def)
  have "set (droplets (dropletLoop dt (Suc n) s))
          \<subseteq> stepDroplet dt (width s) ` set (take n ?ds) \<union> set (drop n (droplets ?s'))"
    using Suc.IH[OF len] by (simp add: w tk)
  also have "\<dots> \<subseteq> stepDroplet dt (width s) ` set (take n ?ds) \<union> ({?d} \<union> set (drop (Suc n) ?ds))"
    using dr by blast
  also have "\<dots> = stepDroplet dt (width s) ` set (take (Suc n) ?ds) \<union> set (drop (Suc n) ?ds)"
    using n by (auto simp: take_Suc_conv_app_nth)
  finally show ?case .
qed

lemma update_survivors:
  "set (droplets (update s dT now rnd))
     \<subseteq> stepDroplet (clampDt dT) (width s)
          ` set (droplets (emitDroplets (clampDt dT) rnd (updateStream now s)))"
proof -
  let ?s3 = "drainVolume (clampDt dT) (emitDroplets (clampDt dT) rnd (updateStream now s))"
  have d3: "droplets ?s3 = droplets (emitDroplets (clampDt dT) rnd (updateStream now s))"
    by (simp add: phase_frames)
  have w3: "width ?s3 = width s" by (simp add: phase_frames)
  show ?thesis
    unfolding update_droplets
    using dropletLoop_survivors[of "length (droplets ?s3)" ?s3 "clampDt dT"]
    by (simp add: d3 w3)
qed

lemma stepDroplet_boundary:
  "d_r (stepDroplet dt w d) = d_r d
   \<and> (let x1 = d_x d + d_vx d * 0.995 * dt; vx1 = d_vx d * 0.995
      in if x1 < d_r d
         then d_x (stepDroplet dt w d) = d_r d \<and> d_vx (stepDroplet dt w d) = vx1 * (- 0.35)
         else if x1 > w - d_r d
         then d_x (stepDroplet dt w d) = w - d_r d
              \<and> d_vx (stepDroplet dt w d) = vx1 * (- 0.35)
         else d_x (stepDroplet dt w d) = x1 \<and> d_vx (stepDroplet dt w d) = vx1)"
  by (simp add: stepDroplet_def Let_def airDrag_def)

text \<open>
  C7, as the code has it. Every droplet left in the list after an update is the
  integrated form of a droplet \<open>d0\<close> that was in flight once the update had emitted its
  new droplets, with the radius of \<open>d0\<close>. Where the integrated x-position lies left of
  \<open>r\<close>, the droplet is put at \<open>x = r\<close>; otherwise, where it lies right of
  \<open>width - r\<close>, the droplet is put at \<open>x = width - r\<close>; in both cases its horizontal
  velocity is reflected with the factor \<open>- 0.35\<close>. A droplet whose radius is at least
  0 and at most the scene width therefore has its x-position in \<open>[0, width]\<close>.
\<close>

theorem droplets_stay_between_side_boundaries:
  "\<forall>d \<in> set (droplets (update s dT now rnd)).
     (\<exists>d0 \<in> set (droplets (emitDroplets (max 0 (min 0.05 dT)) rnd (updateStream now s))).
        d_r d = d_r d0
        \<and> (let x1 = d_x d0 + d_vx d0 * 0.995 * max 0 (min 0.05 dT); vx1 = d_vx d0 * 0.995
           in if x1 < d_r d0 then d_x d = d_r d0 \<and> d_vx d = vx1 * (- 0.35)
              else if x1 > width s - d_r d0
              then d_x d = width s - d_r d0 \<and> d_vx d = vx1 * (- 0.35)
              else d_x d = x1 \<and> d_vx d = vx1))
     \<and> (0 \<le> d_r d \<and> d_r d \<le> width s \<longrightarrow> 0 \<le> d_x d \<and> d_x d \<le> width s)"
proof (intro ballI)
  fix d
  assume d: "d \<in> set (droplets (update s dT now rnd))"
  from d update_survivors obtain d0 where
    d0: "d0 \<in> set (droplets (emitDroplets (clampDt dT) rnd (updateStream now s)))"
        "d = stepDroplet (clampDt dT) (width s) d0"
    by blast
  have origin: "\<exists>d0 \<in> set (droplets (emitDroplets (max 0 (min 0.05 dT)) rnd (updateStream now s))).
        d_r d = d_r d0
        \<and> (let x1 = d_x d0 + d_vx d0 * 0.995 * max 0 (min 0.05 dT); vx1 = d_vx d0 * 0.995
           in if x1 < d_r d0 then d_x d = d_r d0 \<and> d_vx d = vx1 * (- 0.35)
              else if x1 > width s - d_r d0
              then d_x d = width s - d_r d0 \<and> d_vx d = vx1 * (- 0.35)
              else d_x d = x1 \<and> d_vx d = vx1)"
    using d0(1) stepDroplet_boundary[of "clampDt dT" "width s" d0]
    unfolding d0(2) clampDt_def by blast
  have range: "0 \<le> d_x d \<and> d_x d \<le> width s" if r: "0 \<le> d_r d \<and> d_r d \<le> width s"
  proof -
    have "0 \<le> d_r d0" "d_r d0 \<le> width s"
      using r by (simp_all add: d0 stepDroplet_r)
    then show ?thesis unfolding d0 by (rule stepDroplet_x_range)
  qed
  from origin range show
    "(\<exists>d0 \<in> set (droplets (emitDroplets (max 0 (min 0.05 dT)) rnd (updateStream now s))).
        d_r d = d_r d0
        \<and> (let x1 = d_x d0 + d_vx d0 * 0.995 * max 0 (min 0.05 dT); vx1 = d_vx d0 * 0.995
           in if x1 < d_r d0 then d_x d = d_r d0 \<and> d_vx d = vx1 * (- 0.35)
              else if x1 > width s - d_r d0
              then d_x d = width s - d_r d0 \<and> d_vx d = vx1 * (- 0.35)
              else d_x d = x1 \<and> d_vx d = vx1))
     \<and> (0 \<le> d_r d \<and> d_r d \<le> width s \<longrightarrow> 0 \<le> d_x d \<and> d_x d \<le> width s)"
    by blast
qed

lemma constructor_field:
  "surf_h (constructor w hgt) = replicate (nat (max 96 \<lfloor>w / 3\<rfloor>)) 0
   \<and> surf_v (constructor w hgt) = replicate (nat (max 96 \<lfloor>w / 3\<rfloor>)) 0"
proof -
  obtain s1 s2 s3 s4 s5 where p:
    "s1 = fresh\<lparr>width := w, height := hgt\<rparr>"
    "s2 = (if targetFillHeight s1 > 0
           then s1\<lparr>targetVolume := width s1 * targetFillHeight s1\<rparr> else s1)"
    "s3 = initSurfaceField s2"
    "s4 = (if surfaceN fresh > 0 \<and> length (surf_h fresh) = surfaceN fresh
           then let hv = fold (resampleStep (surfaceN s3) (surfaceN fresh) (surf_h fresh) (surf_v fresh))
                           [0..<surfaceN s3] (surf_h s3, surf_v s3)
                in s3\<lparr>surf_h := fst hv, surf_v := snd hv\<rparr>
           else s3)"
    "s5 = s4\<lparr>droplets :=
              map (\<lambda>d. let d1 = d\<lparr>d_x := d_x d * (width s4 / max 1 (if width fresh \<noteq> 0 then width fresh else w))\<rparr>
                       in d1\<lparr>d_x := max (d_r d1) (min (width s4 - d_r d1) (d_x d1))\<rparr>)
                (droplets s4)\<rparr>"
    "resize fresh w hgt = s5\<lparr>streamX := width s5 * 0.55\<rparr>"
    by (rule resize_phases)
  have "s2 = s1" by (simp add: p(2) p(1) fresh_def)
  then have "s3 = initSurfaceField (fresh\<lparr>width := w, height := hgt\<rparr>)"
    by (simp add: p(3) p(1))
  moreover have "s4 = s3" by (simp add: p(4) fresh_def)
  ultimately show ?thesis
    unfolding constructor_def p(6) p(5)
    by (simp add: initSurfaceField_def Let_def)
qed

lemma nth0_flat: "set a \<subseteq> {0} \<Longrightarrow> nth0 a i = 0"
  by (auto simp: nth0_def subset_iff)

lemma sampleSurfaceOffset_flat: "set (surf_h s) \<subseteq> {0} \<Longrightarrow> sampleSurfaceOffset s x = 0"
  by (simp add: sampleSurfaceOffset_def Let_def nth0_flat)

lemma spawnLoop_once:
  assumes "1 \<le> dropSpawnAccumulator s" "dropSpawnAccumulator s < 2"
  shows "spawnLoop rnd (s, k) =
           (fst (spawnDroplet rnd (s, k))\<lparr>dropSpawnAccumulator := dropSpawnAccumulator s - 1\<rparr>,
            snd (spawnDroplet rnd (s, k)))"
proof -
  have acc: "dropSpawnAccumulator (fst (spawnDroplet rnd (s, k))) = dropSpawnAccumulator s"
    using spawnDroplet_shape[of rnd "(s, k)"] by (elim exE) simp
  show ?thesis
    using assms
    by (subst spawnLoop.simps, simp add: Let_def acc, subst spawnLoop.simps, simp add: acc)
qed

lemma small_radius:
  "0 \<le> vol \<Longrightarrow> vol \<le> 1 / 50 \<Longrightarrow> max 1.5 (min 5.5 (sqrt (vol / pi) * 9.5)) = (1.5 :: real)"
proof -
  assume v: "0 \<le> vol" "vol \<le> 1 / 50"
  have "vol / pi \<le> vol" using v pi_ge_two by (simp add: divide_le_eq mult_le_cancel_left1)
  then have "vol / pi \<le> (3 / 19)\<^sup>2" using v by (simp add: power2_eq_square)
  then have "sqrt (vol / pi) \<le> 3 / 19" by (rule real_le_lsqrt[rotated 1]) simp_all
  then show ?thesis by simp
qed

lemma narrow_emit:
  "droplets (emitDroplets 0.004 zeroDraws (updateStream 0 (setEmission (constructor 1 100) 1)))
     = [\<lparr>d_x = 1, d_y = - 12, d_px = 1, d_py = - 12, d_vx = - 10, d_vy = 0,
         d_r = 1.5, d_vol = 1 / 400\<rparr>]"
proof -
  let ?s1 = "updateStream 0 (setEmission (constructor 1 100) 1)"
  have f: "\<not> isDraining ?s1" "\<not> whirlpoolActive ?s1" "volumePerSecond ?s1 = 1"
    "dropSpawnAccumulator ?s1 = 0" "droplets ?s1 = []" "width ?s1 = 1"
    by (simp_all add: updateStream_frame setEmission_def constructor_fields)
  have sx: "streamX ?s1 = 10"
    by (simp add: updateStream_def Let_def setEmission_def constructor_fields streamWidth_def)
  let ?s0 = "?s1\<lparr>dropSpawnAccumulator := dropSpawnAccumulator ?s1 + dropsPerSecond * 0.004\<rparr>"
  have r: "max 1.5 (min 5.5 (sqrt ((1 / 400) / pi) * 9.5)) = (1.5 :: real)"
    by (rule small_radius) simp_all
  have sd: "spawnDroplet zeroDraws (?s0, 0) =
      (?s0\<lparr>droplets := [\<lparr>d_x = 1, d_y = - 12, d_px = 1, d_py = - 12, d_vx = - 10, d_vy = 0,
                            d_r = 1.5, d_vol = 1 / 400\<rparr>]\<rparr>, 4)"
    using r
    by (simp add: spawnDroplet_def Let_def f sx maxDroplets_def dropsPerSecond_def
          zeroDraws_def streamWidth_def)
  have "emitDroplets 0.004 zeroDraws ?s1 = fst (spawnLoop zeroDraws (?s0, 0))"
    using f by (simp add: emitDroplets_def)
  also have "spawnLoop zeroDraws (?s0, 0) =
      (fst (spawnDroplet zeroDraws (?s0, 0))\<lparr>dropSpawnAccumulator := dropSpawnAccumulator ?s0 - 1\<rparr>,
       snd (spawnDroplet zeroDraws (?s0, 0)))"
    by (rule spawnLoop_once) (simp_all add: f dropsPerSecond_def)
  finally show ?thesis
    unfolding sd by simp
qed

lemma getBaseSurfaceY_cong:
  "height a = height b \<Longrightarrow> width a = width b \<Longrightarrow> targetFillHeight a = targetFillHeight b
   \<Longrightarrow> waterVolume a = waterVolume b \<Longrightarrow> getBaseSurfaceY a = getBaseSurfaceY b"
  by (simp add: getBaseSurfaceY_def getWaterHeight_def)

lemma drainVolume_idle: "\<not> isDraining s \<or> drainRate s \<le> 0 \<Longrightarrow> drainVolume dt s = s"
  by (auto simp: drainVolume_def)

text \<open>
  One update of a state that is not draining, whose surface is flat and whose list,
  after emission, holds a single droplet that stays above the surface.
\<close>

lemma update_lone_droplet_stays:
  assumes ds: "droplets (emitDroplets (clampDt dT) rnd (updateStream now s)) = [d]"
    and flat: "set (surf_h s) \<subseteq> {0}"
    and idle: "\<not> isDraining s \<or> drainRate s \<le> 0"
    and above: "d_y (stepDroplet (clampDt dT) (width s) d)
                  + d_r (stepDroplet (clampDt dT) (width s) d) < getBaseSurfaceY s"
    and inside: "d_y (stepDroplet (clampDt dT) (width s) d) \<le> height s + 120"
  shows "droplets (update s dT now rnd) = [stepDroplet (clampDt dT) (width s) d]"
proof -
  let ?s2 = "emitDroplets (clampDt dT) rnd (updateStream now s)"
  have idle2: "\<not> isDraining ?s2 \<or> drainRate ?s2 \<le> 0"
    using idle by (simp add: phase_frames)
  have s3: "drainVolume (clampDt dT) ?s2 = ?s2"
    using idle2 by (rule drainVolume_idle)
  have base: "getBaseSurfaceY ?s2 = getBaseSurfaceY s"
    by (rule getBaseSurfaceY_cong) (simp_all add: phase_frames)
  have flat2: "set (surf_h ?s2) \<subseteq> {0}" using flat by (simp add: phase_frames)
  have w: "width ?s2 = width s" "height ?s2 = height s" by (simp_all add: phase_frames)
  have "droplets (update s dT now rnd) = droplets (dropletLoop (clampDt dT) (Suc 0) ?s2)"
    unfolding update_droplets s3 by (simp add: ds)
  also have "\<dots> = droplets (dropletBody (clampDt dT) 0 ?s2)" by simp
  also have "\<dots> = [stepDroplet (clampDt dT) (width s) d]"
    unfolding dropletBody_droplets Let_def
    using above inside
    by (simp add: ds w getSurfaceY_def base sampleSurfaceOffset_flat[OF flat2])
  finally show ?thesis .
qed

lemma constructor_flat: "set (surf_h (constructor w hgt)) \<subseteq> {0}"
  by (simp add: constructor_field)

text \<open>
  The claim as stated fails in a scene narrower than a droplet. In a window 1 wide, the
  first droplet emitted (all random draws 0) has radius 1.5; the left boundary puts it
  at \<open>x = r = 1.5\<close>, outside \<open>[0, 1]\<close>.
\<close>

theorem narrow_scene_counterexample:
  "map d_x (droplets (run (constructor 1 100) [SetEmission 1, Update 0.004 0 zeroDraws])) = [3 / 2]
   \<and> width (run (constructor 1 100) [SetEmission 1, Update 0.004 0 zeroDraws]) = 1"
proof -
  let ?s = "setEmission (constructor 1 100) 1"
  let ?d = "\<lparr>d_x = 1, d_y = - 12, d_px = 1, d_py = - 12, d_vx = - 10, d_vy = 0,
             d_r = 1.5, d_vol = 1 / 400\<rparr> :: droplet"
  have c: "clampDt 0.004 = 0.004" by (simp add: clampDt_def)
  have f: "width ?s = 1" "height ?s = 100" "\<not> isDraining ?s" "waterVolume ?s = 0"
      "targetFillHeight ?s = 0" "surf_h ?s = surf_h (constructor 1 100)"
    by (simp_all add: setEmission_def constructor_fields)
  have base: "getBaseSurfaceY ?s = 100"
    by (simp add: getBaseSurfaceY_def getWaterHeight_def f)
  have "droplets (update ?s 0.004 0 zeroDraws) = [stepDroplet (clampDt 0.004) (width ?s) ?d]"
  proof (rule update_lone_droplet_stays)
    show "droplets (emitDroplets (clampDt 0.004) zeroDraws (updateStream 0 ?s)) = [?d]"
      unfolding c by (rule narrow_emit)
    show "set (surf_h ?s) \<subseteq> {0}" by (simp add: f constructor_flat)
    show "\<not> isDraining ?s \<or> drainRate ?s \<le> 0" by (simp add: f)
    show "d_y (stepDroplet (clampDt 0.004) (width ?s) ?d)
            + d_r (stepDroplet (clampDt 0.004) (width ?s) ?d) < getBaseSurfaceY ?s"
      unfolding c base by (simp add: stepDroplet_def Let_def f gravity_def airDrag_def)
    show "d_y (stepDroplet (clampDt 0.004) (width ?s) ?d) \<le> height ?s + 120"
      unfolding c by (simp add: stepDroplet_def Let_def f gravity_def airDrag_def)
  qed
  then have "map d_x (droplets (update ?s 0.004 0 zeroDraws)) = [3 / 2]"
    unfolding c by (simp add: stepDroplet_def Let_def f gravity_def airDrag_def)
  moreover have "width (update ?s 0.004 0 zeroDraws) = 1"
    by (simp add: update_frame f)
  ultimately show ?thesis by (simp add: run_def)
qed

lemma emitDroplets_off:
  "isDraining s \<or> whirlpoolActive s \<or> volumePerSecond s \<le> 0 \<Longrightarrow> emitDroplets dt rnd s = s"
  by (auto simp: emitDroplets_def)

text \<open>
  One update of a scene 300 wide and 100 high, at rest and empty but for one droplet
  of radius 3 that starts at height 10 with no vertical velocity: the droplet is
  integrated and stays in the list.
\<close>

lemma lone_droplet_update:
  assumes "d_y d = 10" "d_vy d = 0" "d_r d = 3"
  shows "droplets (update ((constructor 300 100)\<lparr>droplets := [d]\<rparr>) 0.016 0 zeroDraws)
           = [stepDroplet 0.016 300 d]"
proof -
  let ?s = "(constructor 300 100)\<lparr>droplets := [d]\<rparr>"
  have c: "clampDt 0.016 = 0.016" by (simp add: clampDt_def)
  have f: "width ?s = 300" "height ?s = 100" "\<not> isDraining ?s" "waterVolume ?s = 0"
      "targetFillHeight ?s = 0" "surf_h ?s = surf_h (constructor 300 100)"
      "volumePerSecond ?s = 0" "droplets ?s = [d]"
    by (simp_all add: constructor_fields)
  have base: "getBaseSurfaceY ?s = 100"
    by (simp add: getBaseSurfaceY_def getWaterHeight_def f)
  have "droplets (update ?s 0.016 0 zeroDraws) = [stepDroplet (clampDt 0.016) (width ?s) d]"
  proof (rule update_lone_droplet_stays)
    have "emitDroplets (clampDt 0.016) zeroDraws (updateStream 0 ?s) = updateStream 0 ?s"
      by (rule emitDroplets_off) (simp add: phase_frames f)
    then show "droplets (emitDroplets (clampDt 0.016) zeroDraws (updateStream 0 ?s)) = [d]"
      by (simp add: phase_frames f)
    show "set (surf_h ?s) \<subseteq> {0}" by (simp add: f constructor_flat)
    show "\<not> isDraining ?s \<or> drainRate ?s \<le> 0" by (simp add: f)
    show "d_y (stepDroplet (clampDt 0.016) (width ?s) d)
            + d_r (stepDroplet (clampDt 0.016) (width ?s) d) < getBaseSurfaceY ?s"
      unfolding c base stepDroplet_y stepDroplet_r
      by (simp add: assms gravity_def airDrag_def)
    show "d_y (stepDroplet (clampDt 0.016) (width ?s) d) \<le> height ?s + 120"
      unfolding c stepDroplet_y
      by (simp add: assms constructor_fields gravity_def airDrag_def)
  qed
  then show ?thesis unfolding c by (simp add: constructor_fields)
qed

theorem droplets_stay_between_side_boundaries_witness:
  "width ((constructor 300 100)\<lparr>droplets := [edgeDroplet]\<rparr>) = 300
   \<and> droplets (update ((constructor 300 100)\<lparr>droplets := [edgeDroplet]\<rparr>) 0.016 0 zeroDraws) \<noteq> []
   \<and> d_r (hd (droplets
         (update ((constructor 300 100)\<lparr>droplets := [edgeDroplet]\<rparr>) 0.016 0 zeroDraws))) = 3
   \<and> d_x (hd (droplets
         (update ((constructor 300 100)\<lparr>droplets := [edgeDroplet]\<rparr>) 0.016 0 zeroDraws))) = 3
   \<and> d_vx (hd (droplets
         (update ((constructor 300 100)\<lparr>droplets := [edgeDroplet]\<rparr>) 0.016 0 zeroDraws)))
       = 1393 / 40
   \<and> droplets (update ((constructor 300 100)\<lparr>droplets := [rightDroplet]\<rparr>) 0.016 0 zeroDraws) \<noteq> []
   \<and> d_r (hd (droplets
         (update ((constructor 300 100)\<lparr>droplets := [rightDroplet]\<rparr>) 0.016 0 zeroDraws))) = 3
   \<and> d_x (hd (droplets
         (update ((constructor 300 100)\<lparr>droplets := [rightDroplet]\<rparr>) 0.016 0 zeroDraws))) = 297
   \<and> d_vx (hd (droplets
         (update ((constructor 300 100)\<lparr>droplets := [rightDroplet]\<rparr>) 0.016 0 zeroDraws)))
       = - (1393 / 40)"
proof -
  let ?l = "(constructor 300 100)\<lparr>droplets := [edgeDroplet]\<rparr>"
  let ?r = "(constructor 300 100)\<lparr>droplets := [rightDroplet]\<rparr>"
  have w: "width ?l = 300" "width ?r = 300" by (simp_all add: constructor_fields)
  have el: "droplets (update ?l 0.016 0 zeroDraws) = [stepDroplet 0.016 300 edgeDroplet]"
    by (rule lone_droplet_update) (simp_all add: edgeDroplet_def)
  have er: "droplets (update ?r 0.016 0 zeroDraws) = [stepDroplet 0.016 300 rightDroplet]"
    by (rule lone_droplet_update) (simp_all add: rightDroplet_def)
  have vl: "d_r (stepDroplet (2 / 125) 300 edgeDroplet) = 3"
    "d_x (stepDroplet (2 / 125) 300 edgeDroplet) = 3"
    "d_vx (stepDroplet (2 / 125) 300 edgeDroplet) = 1393 / 40"
    by (simp_all add: stepDroplet_def Let_def airDrag_def gravity_def edgeDroplet_def)
  have vr: "d_r (stepDroplet (2 / 125) 300 rightDroplet) = 3"
    "d_x (stepDroplet (2 / 125) 300 rightDroplet) = 297"
    "d_vx (stepDroplet (2 / 125) 300 rightDroplet) = - (1393 / 40)"
    by (simp_all add: stepDroplet_def Let_def airDrag_def gravity_def rightDroplet_def)
  have "0 \<le> d_x (hd (droplets (update ?l 0.016 0 zeroDraws)))
        \<and> d_x (hd (droplets (update ?l 0.016 0 zeroDraws))) \<le> width ?l"
    using droplets_stay_between_side_boundaries[of ?l "0.016" 0 zeroDraws] el vl w by simp
  moreover have "0 \<le> d_x (hd (droplets (update ?r 0.016 0 zeroDraws)))
        \<and> d_x (hd (droplets (update ?r 0.016 0 zeroDraws))) \<le> width ?r"
    using droplets_stay_between_side_boundaries[of ?r "0.016" 0 zeroDraws] er vr w by simp
  ultimately show ?thesis
    unfolding el er by (simp add: vl vr w)
qed

section \<open>The reservoir volume while not draining\<close>

lemma update_waterVolume:
  "waterVolume (update s dT now rnd) =
     (let s3 = drainVolume (clampDt dT) (emitDroplets (clampDt dT) rnd (updateStream now s))
      in if getBaseSurfaceY s3 < 0 then width s * height s
         else waterVolume (dropletLoop (clampDt dT) (length (droplets s3)) s3))"
proof -
  obtain s1 s2 s3 s4 s5 s6 s7 where p:
    "s1 = updateStream now s"
    "s2 = emitDroplets (clampDt dT) rnd s1"
    "s3 = drainVolume (clampDt dT) s2"
    "s4 = dropletLoop (clampDt dT) (length (droplets s3)) s3"
    "s5 = whirlpoolSink (clampDt dT) s4"
    "s6 = (if getBaseSurfaceY s3 < 0 then s5\<lparr>waterVolume := width s5 * height s5\<rparr> else s5)"
    "s7 = stepSurface s6 (clampDt dT)"
    "update s dT now rnd = autoStop s7"
    by (rule update_phases)
  show ?thesis
    unfolding p Let_def by (simp add: phase_frames)
qed

lemma spawnDroplet_vols:
  "\<forall>d \<in> set (droplets (fst sk)). 0 \<le> d_vol d \<Longrightarrow>
   \<forall>d \<in> set (droplets (fst (spawnDroplet rnd sk))). 0 \<le> d_vol d"
  by (auto simp: spawnDroplet_def Let_def)

lemma spawnLoop_vols:
  "\<forall>d \<in> set (droplets (fst sk)). 0 \<le> d_vol d \<Longrightarrow>
   \<forall>d \<in> set (droplets (fst (spawnLoop rnd sk))). 0 \<le> d_vol d"
proof (induction rnd sk rule: spawnLoop.induct)
  case (1 rnd sk)
  show ?case
  proof (cases "dropSpawnAccumulator (fst sk) \<ge> 1")
    case False
    then show ?thesis using "1.prems" by (subst spawnLoop.simps) simp
  next
    case True
    define sk' where "sk' = spawnDroplet rnd sk"
    define nxt where
      "nxt = (fst sk'\<lparr>dropSpawnAccumulator := dropSpawnAccumulator (fst sk') - 1\<rparr>, snd sk')"
    have "\<forall>d \<in> set (droplets (fst nxt)). 0 \<le> d_vol d"
      using spawnDroplet_vols[OF "1.prems", of rnd] by (simp add: nxt_def sk'_def)
    then have "\<forall>d \<in> set (droplets (fst (spawnLoop rnd nxt))). 0 \<le> d_vol d"
      using "1.IH"[OF True sk'_def] unfolding nxt_def by blast
    moreover have "spawnLoop rnd sk = spawnLoop rnd nxt"
      using True by (subst spawnLoop.simps) (simp add: nxt_def sk'_def Let_def)
    ultimately show ?thesis by simp
  qed
qed

lemma emitDroplets_vols:
  "\<forall>d \<in> set (droplets s). 0 \<le> d_vol d \<Longrightarrow>
   \<forall>d \<in> set (droplets (emitDroplets dt rnd s)). 0 \<le> d_vol d"
proof (cases "\<not> isDraining s \<and> \<not> whirlpoolActive s \<and> volumePerSecond s > 0")
  case True
  assume "\<forall>d \<in> set (droplets s). 0 \<le> d_vol d"
  then show ?thesis
    using True spawnLoop_vols[of
        "(s\<lparr>dropSpawnAccumulator := dropSpawnAccumulator s + dropsPerSecond * dt\<rparr>, 0)" rnd]
    by (simp add: emitDroplets_def)
next
  case False
  assume "\<forall>d \<in> set (droplets s). 0 \<le> d_vol d"
  with False show ?thesis by (auto simp: emitDroplets_def)
qed

lemma dropletBody_waterVolume:
  "waterVolume (dropletBody dt i s) =
     (let d = stepDroplet dt (width s) (droplets s ! i)
      in if d_y d + d_r d \<ge> getSurfaceY s (d_x d)
         then (if targetVolume s \<noteq> 0 then min (targetVolume s) (waterVolume s + d_vol d)
               else waterVolume s + d_vol d)
         else waterVolume s)"
  unfolding dropletBody_def Let_def
  by (simp add: addRippleImpulse_frame)

text \<open>
  The droplet loop never lowers a reservoir that is within its target, as long as no
  droplet carries a negative volume.
\<close>

lemma dropletLoop_volume:
  "n \<le> length (droplets s) \<Longrightarrow> \<forall>d \<in> set (droplets s). 0 \<le> d_vol d \<Longrightarrow>
   targetVolume s = 0 \<or> waterVolume s \<le> targetVolume s \<Longrightarrow>
   waterVolume s \<le> waterVolume (dropletLoop dt n s)"
proof (induction n arbitrary: s)
  case 0
  show ?case by simp
next
  case (Suc n)
  let ?ds = "droplets s"
  let ?d = "stepDroplet dt (width s) (?ds ! n)"
  let ?s' = "dropletBody dt n s"
  have n: "n < length ?ds" using Suc.prems(1) by simp
  then have vol: "0 \<le> d_vol ?d" using Suc.prems(2) by (simp add: stepDroplet_vol)
  have tv: "targetVolume ?s' = targetVolume s"
    using dropletBody_shape[of dt n s] by (elim exE) simp
  have up: "waterVolume s \<le> waterVolume ?s'"
    unfolding dropletBody_waterVolume Let_def using vol Suc.prems(3) by auto
  have cap: "targetVolume ?s' = 0 \<or> waterVolume ?s' \<le> targetVolume ?s'"
    unfolding tv dropletBody_waterVolume Let_def using Suc.prems(3) by auto
  have cases: "droplets ?s' = splice1 n ?ds \<or> droplets ?s' = ?ds[n := ?d]"
    unfolding dropletBody_droplets Let_def by simp
  have len: "n \<le> length (droplets ?s')"
    using cases n by (auto simp: splice1_def)
  have vols: "\<forall>d \<in> set (droplets ?s'). 0 \<le> d_vol d"
  proof
    fix d assume "d \<in> set (droplets ?s')"
    with cases have "d \<in> set ?ds \<or> d = ?d"
      by (auto simp: splice1_def dest: in_set_takeD in_set_dropD set_update_subset_insert[THEN subsetD])
    then show "0 \<le> d_vol d" using vol Suc.prems(2) by auto
  qed
  have "waterVolume ?s' \<le> waterVolume (dropletLoop dt n ?s')"
    using len vols cap by (rule Suc.IH)
  with up show ?case by simp
qed

text \<open>
  C1, as the code has it. An update made while \<^verbatim>\<open>isDraining\<close> is false does not lower
  the reservoir volume, provided that no droplet in flight carries a negative volume,
  that the reservoir is within its target (\<open>targetVolume\<close> is 0, which means no
  ceiling, or \<open>waterVolume \<le> targetVolume\<close>), and that the base surface is not above
  the top of the scene.
\<close>

theorem volume_nondecreasing_without_drain:
  assumes "\<not> isDraining s"
    and "\<forall>d \<in> set (droplets s). 0 \<le> d_vol d"
    and "targetVolume s = 0 \<or> waterVolume s \<le> targetVolume s"
    and "0 \<le> getBaseSurfaceY s"
  shows "waterVolume s \<le> waterVolume (update s dT now rnd)"
proof -
  let ?s2 = "emitDroplets (clampDt dT) rnd (updateStream now s)"
  have s3: "drainVolume (clampDt dT) ?s2 = ?s2"
    by (rule drainVolume_idle) (simp add: phase_frames assms(1))
  have base: "getBaseSurfaceY ?s2 = getBaseSurfaceY s"
    by (rule getBaseSurfaceY_cong) (simp_all add: phase_frames)
  have vols: "\<forall>d \<in> set (droplets ?s2). 0 \<le> d_vol d"
    by (rule emitDroplets_vols) (simp add: phase_frames assms(2))
  have cap: "targetVolume ?s2 = 0 \<or> waterVolume ?s2 \<le> targetVolume ?s2"
    using assms(3) by (simp add: phase_frames)
  have "waterVolume ?s2 \<le> waterVolume (dropletLoop (clampDt dT) (length (droplets ?s2)) ?s2)"
    using _ vols cap by (rule dropletLoop_volume) simp
  then show ?thesis
    unfolding update_waterVolume Let_def s3 base using assms(4)
    by (simp add: phase_frames)
qed

text \<open>
  One update of a state that is not draining, whose surface is flat and whose list,
  after emission, holds a single droplet that reaches the surface.
\<close>

lemma update_lone_droplet_hits:
  assumes ds: "droplets (emitDroplets (clampDt dT) rnd (updateStream now s)) = [d]"
    and flat: "set (surf_h s) \<subseteq> {0}"
    and idle: "\<not> isDraining s \<or> drainRate s \<le> 0"
    and hit: "getBaseSurfaceY s \<le> d_y (stepDroplet (clampDt dT) (width s) d)
                                   + d_r (stepDroplet (clampDt dT) (width s) d)"
    and top: "0 \<le> getBaseSurfaceY s"
  shows "waterVolume (update s dT now rnd) =
           (if targetVolume s \<noteq> 0 then min (targetVolume s) (waterVolume s + d_vol d)
            else waterVolume s + d_vol d)"
proof -
  let ?s2 = "emitDroplets (clampDt dT) rnd (updateStream now s)"
  have idle2: "\<not> isDraining ?s2 \<or> drainRate ?s2 \<le> 0"
    using idle by (simp add: phase_frames)
  have s3: "drainVolume (clampDt dT) ?s2 = ?s2"
    using idle2 by (rule drainVolume_idle)
  have base: "getBaseSurfaceY ?s2 = getBaseSurfaceY s"
    by (rule getBaseSurfaceY_cong) (simp_all add: phase_frames)
  have flat2: "set (surf_h ?s2) \<subseteq> {0}" using flat by (simp add: phase_frames)
  have w: "width ?s2 = width s" "targetVolume ?s2 = targetVolume s"
    "waterVolume ?s2 = waterVolume s"
    by (simp_all add: phase_frames)
  have "waterVolume (update s dT now rnd) = waterVolume (dropletLoop (clampDt dT) (Suc 0) ?s2)"
    unfolding update_waterVolume Let_def s3 base using top by (simp add: ds)
  also have "\<dots> = waterVolume (dropletBody (clampDt dT) 0 ?s2)" by simp
  also have "\<dots> = (if targetVolume s \<noteq> 0 then min (targetVolume s) (waterVolume s + d_vol d)
                     else waterVolume s + d_vol d)"
    unfolding dropletBody_waterVolume Let_def
    using hit
    by (simp add: ds w getSurfaceY_def base sampleSurfaceOffset_flat[OF flat2] stepDroplet_vol)
  finally show ?thesis .
qed

lemma landing_scene:
  assumes "s = (constructor 150 100)\<lparr>targetFillHeight := 100, targetVolume := 15000,
                 waterVolume := wv, droplets := [landingDroplet]\<rparr>"
    and "15000 - 1 / 2 \<le> wv"
  shows "waterVolume (update s 0.016 0 zeroDraws) = min 15000 (wv + 1)"
    and "\<not> isDraining s" and "getBaseSurfaceY s = 100 - min 100 (wv / 150)"
proof -
  have c: "clampDt 0.016 = 0.016" by (simp add: clampDt_def)
  have f: "width s = 150" "height s = 100" "\<not> isDraining s" "waterVolume s = wv"
      "targetFillHeight s = 100" "surf_h s = surf_h (constructor 150 100)"
      "volumePerSecond s = 0" "droplets s = [landingDroplet]" "targetVolume s = 15000"
    by (simp_all add: assms(1) constructor_fields)
  show "\<not> isDraining s" by (rule f)
  show base: "getBaseSurfaceY s = 100 - min 100 (wv / 150)"
    by (simp add: getBaseSurfaceY_def getWaterHeight_def f)
  have "waterVolume (update s 0.016 0 zeroDraws) =
          (if targetVolume s \<noteq> 0 then min (targetVolume s) (waterVolume s + d_vol landingDroplet)
           else waterVolume s + d_vol landingDroplet)"
  proof (rule update_lone_droplet_hits)
    have "emitDroplets (clampDt 0.016) zeroDraws (updateStream 0 s) = updateStream 0 s"
      by (rule emitDroplets_off) (simp add: phase_frames f)
    then show "droplets (emitDroplets (clampDt 0.016) zeroDraws (updateStream 0 s))
                 = [landingDroplet]"
      by (simp add: phase_frames f)
    show "set (surf_h s) \<subseteq> {0}" by (simp add: f constructor_flat)
    show "\<not> isDraining s \<or> drainRate s \<le> 0" by (simp add: f)
    show "getBaseSurfaceY s \<le> d_y (stepDroplet (clampDt 0.016) (width s) landingDroplet)
            + d_r (stepDroplet (clampDt 0.016) (width s) landingDroplet)"
      unfolding c base using assms(2)
      by (simp add: stepDroplet_def Let_def f gravity_def airDrag_def landingDroplet_def
            min_def)
    show "0 \<le> getBaseSurfaceY s" unfolding base by simp
  qed
  then show "waterVolume (update s 0.016 0 zeroDraws) = min 15000 (wv + 1)"
    by (simp add: f landingDroplet_def)
qed

theorem volume_nondecreasing_without_drain_witness:
  "\<not> isDraining nearlyFullScene
   \<and> set (map d_vol (droplets nearlyFullScene)) = {1}
   \<and> waterVolume nearlyFullScene = 29999 / 2 \<and> targetVolume nearlyFullScene = 15000
   \<and> getBaseSurfaceY nearlyFullScene = 1 / 300
   \<and> waterVolume (update nearlyFullScene 0.016 0 zeroDraws) = 15000
   \<and> waterVolume nearlyFullScene \<le> waterVolume (update nearlyFullScene 0.016 0 zeroDraws)"
proof -
  note l = landing_scene[OF nearlyFullScene_def]
  have f: "waterVolume nearlyFullScene = 29999 / 2" "targetVolume nearlyFullScene = 15000"
    "droplets nearlyFullScene = [landingDroplet]"
    by (simp_all add: nearlyFullScene_def)
  have b: "getBaseSurfaceY nearlyFullScene = 1 / 300" using l(3) by simp
  have u: "waterVolume (update nearlyFullScene 0.016 0 zeroDraws) = 15000"
    using l(1) by simp
  have "waterVolume nearlyFullScene \<le> waterVolume (update nearlyFullScene 0.016 0 zeroDraws)"
    by (rule volume_nondecreasing_without_drain)
       (simp_all add: l(2) f b landingDroplet_def)
  then show ?thesis using l(2) f b u by (simp add: landingDroplet_def)
qed

text \<open>
  The claim as stated fails when the reservoir holds more than its target, as it does
  after the window has been made narrower (\<^verbatim>\<open>resize\<close> recomputes \<open>targetVolume\<close> and
  leaves \<open>waterVolume\<close>): the next droplet that lands sets the volume to
  \<open>min targetVolume (waterVolume + vol)\<close>, here from 20000 down to 15000, with
  \<^verbatim>\<open>isDraining\<close> false.
\<close>

theorem overfull_scene_counterexample:
  "\<not> isDraining overfullScene \<and> waterVolume overfullScene = 20000
   \<and> waterVolume (update overfullScene 0.016 0 zeroDraws) = 15000"
proof -
  note l = landing_scene[OF overfullScene_def]
  have "waterVolume (update overfullScene 0.016 0 zeroDraws) = 15000"
    using l(1) by simp
  then show ?thesis using l(2) by (simp add: overfullScene_def)
qed

section \<open>The drain\<close>
















section \<open>What an update depends on\<close>

subsection \<open>The random draws\<close>

lemma spawnDroplet_draws:
  assumes "\<forall>j < 4. rnd1 (snd sk + j) = rnd2 (snd sk + j)"
  shows "spawnDroplet rnd1 sk = spawnDroplet rnd2 sk"
proof -
  have "rnd1 (snd sk) = rnd2 (snd sk)" using assms[rule_format, of 0] by simp
  moreover have "rnd1 (snd sk + 1) = rnd2 (snd sk + 1)" using assms[rule_format, of 1] by simp
  moreover have "rnd1 (snd sk + 2) = rnd2 (snd sk + 2)" using assms[rule_format, of 2] by simp
  moreover have "rnd1 (snd sk + 3) = rnd2 (snd sk + 3)" using assms[rule_format, of 3] by simp
  ultimately show ?thesis by (simp add: spawnDroplet_def Let_def)
qed

lemma spawnDroplet_position:
  "snd (spawnDroplet rnd sk) = snd sk \<or> snd (spawnDroplet rnd sk) = snd sk + 4"
  by (simp add: spawnDroplet_def Let_def)

lemma spawnDroplet_accumulator:
  "dropSpawnAccumulator (fst (spawnDroplet rnd sk)) = dropSpawnAccumulator (fst sk)"
  using spawnDroplet_shape[of rnd sk] by (elim exE) simp

text \<open>
  The spawn loop reads at most four draws per iteration, and runs
  \<open>\<lfloor>dropSpawnAccumulator\<rfloor>\<close> iterations.
\<close>

lemma spawnLoop_draws:
  "\<forall>j < 4 * nat \<lfloor>dropSpawnAccumulator (fst sk)\<rfloor>. rnd1 (snd sk + j) = rnd2 (snd sk + j)
   \<Longrightarrow> spawnLoop rnd1 sk = spawnLoop rnd2 sk"
proof (induction rnd1 sk rule: spawnLoop.induct)
  case (1 rnd1 sk)
  show ?case
  proof (cases "dropSpawnAccumulator (fst sk) \<ge> 1")
    case False
    then show ?thesis
      by (subst spawnLoop.simps, subst (2) spawnLoop.simps) simp
  next
    case True
    then have n: "1 \<le> nat \<lfloor>dropSpawnAccumulator (fst sk)\<rfloor>" by linarith
    define sk' where "sk' = spawnDroplet rnd1 sk"
    define nxt where
      "nxt = (fst sk'\<lparr>dropSpawnAccumulator := dropSpawnAccumulator (fst sk') - 1\<rparr>, snd sk')"
    have same: "spawnDroplet rnd2 sk = sk'"
      unfolding sk'_def using "1.prems" n by (intro spawnDroplet_draws[symmetric]) auto
    have acc: "dropSpawnAccumulator (fst nxt) = dropSpawnAccumulator (fst sk) - 1"
      by (simp add: nxt_def sk'_def spawnDroplet_accumulator)
    have fl: "nat \<lfloor>dropSpawnAccumulator (fst sk) - 1\<rfloor> = nat \<lfloor>dropSpawnAccumulator (fst sk)\<rfloor> - 1"
      by linarith
    have pos: "snd nxt = snd sk \<or> snd nxt = snd sk + 4"
      using spawnDroplet_position[of rnd1 sk] by (simp add: nxt_def sk'_def)
    have "\<forall>j < 4 * nat \<lfloor>dropSpawnAccumulator (fst nxt)\<rfloor>. rnd1 (snd nxt + j) = rnd2 (snd nxt + j)"
    proof (intro allI impI)
      fix j assume j: "j < 4 * nat \<lfloor>dropSpawnAccumulator (fst nxt)\<rfloor>"
      obtain e where e: "snd nxt = snd sk + e" "e \<le> 4"
        using pos by (elim disjE) (auto intro: that[of 0] that[of 4])
      have "e + j < 4 * nat \<lfloor>dropSpawnAccumulator (fst sk)\<rfloor>"
        using j e(2) n unfolding acc fl by simp
      then show "rnd1 (snd nxt + j) = rnd2 (snd nxt + j)"
        using "1.prems" by (simp add: e(1) add.assoc)
    qed
    then have ih: "spawnLoop rnd1 nxt = spawnLoop rnd2 nxt"
      using "1.IH"[OF True sk'_def] unfolding nxt_def by blast
    have "spawnLoop rnd1 sk = spawnLoop rnd1 nxt"
      using True by (subst spawnLoop.simps) (simp add: nxt_def sk'_def Let_def)
    moreover have "spawnLoop rnd2 sk = spawnLoop rnd2 nxt"
      using True by (subst spawnLoop.simps) (simp add: nxt_def same Let_def)
    ultimately show ?thesis using ih by simp
  qed
qed

lemma emitDroplets_draws:
  "\<forall>k < 4 * nat \<lfloor>dropSpawnAccumulator s + dropsPerSecond * dt\<rfloor>. rnd1 k = rnd2 k
   \<Longrightarrow> emitDroplets dt rnd1 s = emitDroplets dt rnd2 s"
  using spawnLoop_draws[of
      "(s\<lparr>dropSpawnAccumulator := dropSpawnAccumulator s + dropsPerSecond * dt\<rparr>, 0)" rnd1 rnd2]
  by (simp add: emitDroplets_def)

lemma update_draws:
  assumes "\<forall>k < 4 * nat \<lfloor>dropSpawnAccumulator s + dropsPerSecond * clampDt dT\<rfloor>. rnd1 k = rnd2 k"
  shows "update s dT now rnd1 = update s dT now rnd2"
proof -
  have "emitDroplets (clampDt dT) rnd1 (updateStream now s)
          = emitDroplets (clampDt dT) rnd2 (updateStream now s)"
    by (rule emitDroplets_draws) (simp add: phase_frames assms)
  then show ?thesis by (simp add: update_def Let_def)
qed

subsection \<open>The clock\<close>

text \<open>
  The clock reading only sets \<^verbatim>\<open>streamX\<close>, and only \<^verbatim>\<open>spawnDroplet\<close> reads
  \<^verbatim>\<open>streamX\<close>: every later phase of the update commutes with a change of that field.
\<close>

lemma drainVolume_streamX:
  "drainVolume dt (s\<lparr>streamX := a\<rparr>) = (drainVolume dt s)\<lparr>streamX := a\<rparr>"
  by (simp add: drainVolume_def)

lemma getBaseSurfaceY_streamX: "getBaseSurfaceY (s\<lparr>streamX := a\<rparr>) = getBaseSurfaceY s"
  by (simp add: getBaseSurfaceY_def getWaterHeight_def)

lemma getSurfaceY_streamX: "getSurfaceY (s\<lparr>streamX := a\<rparr>) x = getSurfaceY s x"
  by (simp add: getSurfaceY_def getBaseSurfaceY_streamX sampleSurfaceOffset_def)

lemma addRippleImpulse_streamX:
  "addRippleImpulse (s\<lparr>streamX := a\<rparr>) x st = (addRippleImpulse s x st)\<lparr>streamX := a\<rparr>"
  by (simp add: addRippleImpulse_def Let_def xToIndex_def)

lemma dropletBody_streamX:
  "dropletBody dt i (s\<lparr>streamX := a\<rparr>) = (dropletBody dt i s)\<lparr>streamX := a\<rparr>"
proof -
  have w: "s\<lparr>streamX := a, waterVolume := wv\<rparr> = s\<lparr>waterVolume := wv, streamX := a\<rparr>" for wv
    by simp
  show ?thesis
    unfolding dropletBody_def Let_def
    by (simp add: getSurfaceY_streamX w addRippleImpulse_streamX)
qed

lemma dropletLoop_streamX:
  "dropletLoop dt n (s\<lparr>streamX := a\<rparr>) = (dropletLoop dt n s)\<lparr>streamX := a\<rparr>"
  by (induction n arbitrary: s) (simp_all add: dropletBody_streamX)

lemma whirlpoolSink_streamX:
  "whirlpoolSink dt (s\<lparr>streamX := a\<rparr>) = (whirlpoolSink dt s)\<lparr>streamX := a\<rparr>"
  by (simp add: whirlpoolSink_def Let_def xToIndex_def del: upto_rec_numeral)

lemma stepSurface_streamX:
  "stepSurface (s\<lparr>streamX := a\<rparr>) dt = (stepSurface s dt)\<lparr>streamX := a\<rparr>"
  by (simp add: stepSurface_def Let_def)

lemma autoStop_streamX: "autoStop (s\<lparr>streamX := a\<rparr>) = (autoStop s)\<lparr>streamX := a\<rparr>"
  by (simp add: autoStop_def)

lemma updateStream_streamX:
  "updateStream now s = s\<lparr>streamX := streamX (updateStream now s)\<rparr>"
  using updateStream_shape[of now s] by (elim exE) simp

lemma update_without_emission:
  assumes "isDraining s \<or> whirlpoolActive s \<or> volumePerSecond s \<le> 0"
  shows "\<exists>core. \<forall>now rnd. update s dT now rnd = core\<lparr>streamX := streamX (updateStream now s)\<rparr>"
proof -
  let ?dt = "clampDt dT"
  define D where "D = drainVolume ?dt s"
  define L where "L = dropletLoop ?dt (length (droplets D)) D"
  define W where "W = whirlpoolSink ?dt L"
  define C where "C = (if getBaseSurfaceY D < 0 then W\<lparr>waterVolume := width W * height W\<rparr> else W)"
  define core where "core = autoStop (stepSurface C ?dt)"
  have "update s dT now rnd = core\<lparr>streamX := streamX (updateStream now s)\<rparr>" for now rnd
  proof -
    define c where "c = streamX (updateStream now s)"
    have s1: "updateStream now s = s\<lparr>streamX := c\<rparr>"
      unfolding c_def by (rule updateStream_streamX)
    have s2: "emitDroplets ?dt rnd (s\<lparr>streamX := c\<rparr>) = s\<lparr>streamX := c\<rparr>"
      by (rule emitDroplets_off) (use assms in simp)
    have s3: "drainVolume ?dt (s\<lparr>streamX := c\<rparr>) = D\<lparr>streamX := c\<rparr>"
      by (simp add: D_def drainVolume_streamX)
    have s4: "dropletLoop ?dt (length (droplets (D\<lparr>streamX := c\<rparr>))) (D\<lparr>streamX := c\<rparr>)
                = L\<lparr>streamX := c\<rparr>"
      by (simp add: L_def dropletLoop_streamX)
    have s5: "whirlpoolSink ?dt (L\<lparr>streamX := c\<rparr>) = W\<lparr>streamX := c\<rparr>"
      by (simp add: W_def whirlpoolSink_streamX)
    have s6: "(if getBaseSurfaceY (D\<lparr>streamX := c\<rparr>) < 0
               then (W\<lparr>streamX := c\<rparr>)\<lparr>waterVolume := width (W\<lparr>streamX := c\<rparr>)
                                                     * height (W\<lparr>streamX := c\<rparr>)\<rparr>
               else W\<lparr>streamX := c\<rparr>) = C\<lparr>streamX := c\<rparr>"
      by (simp add: C_def getBaseSurfaceY_streamX)
    have s7: "autoStop (stepSurface (C\<lparr>streamX := c\<rparr>) ?dt) = core\<lparr>streamX := c\<rparr>"
      by (simp add: core_def stepSurface_streamX autoStop_streamX)
    have "update s dT now rnd = core\<lparr>streamX := c\<rparr>"
      unfolding update_def Let_def s1 s2 s3 s4 s5 s6 s7 ..
    then show ?thesis by (simp only: c_def)
  qed
  then show ?thesis by blast
qed

text \<open>
  C4, as the code has it. One update is a function of the state, the timestep, the
  clock reading and the random draws of the call. Of the draws only the first
  \<open>4 \<lfloor>dropSpawnAccumulator + dropsPerSecond dt\<rfloor>\<close> matter: two updates from the same
  state with the same timestep and clock reading whose draws agree that far end in the
  same state. When the state emits no droplets (it is draining, the whirlpool is
  active, or the emission rate is not positive), two updates from the same state with
  the same timestep end in states that agree in every field except \<^verbatim>\<open>streamX\<close>,
  whatever the clock readings and the draws.
\<close>

theorem update_determined_by_inputs:
  "((\<forall>k < 4 * nat \<lfloor>dropSpawnAccumulator s + dropsPerSecond * clampDt dT\<rfloor>. rnd1 k = rnd2 k)
      \<longrightarrow> update s dT now rnd1 = update s dT now rnd2)
   \<and> (isDraining s \<or> whirlpoolActive s \<or> volumePerSecond s \<le> 0
      \<longrightarrow> update s dT now1 rnd1
            = (update s dT now2 rnd2)\<lparr>streamX := streamX (update s dT now1 rnd1)\<rparr>)"
proof (intro conjI impI)
  assume "\<forall>k < 4 * nat \<lfloor>dropSpawnAccumulator s + dropsPerSecond * clampDt dT\<rfloor>. rnd1 k = rnd2 k"
  then show "update s dT now rnd1 = update s dT now rnd2" by (rule update_draws)
next
  assume "isDraining s \<or> whirlpoolActive s \<or> volumePerSecond s \<le> 0"
  then obtain core where
    core: "\<And>now rnd. update s dT now rnd = core\<lparr>streamX := streamX (updateStream now s)\<rparr>"
    using update_without_emission by blast
  show "update s dT now1 rnd1
          = (update s dT now2 rnd2)\<lparr>streamX := streamX (update s dT now1 rnd1)\<rparr>"
    by (simp add: core[of now1 rnd1] core[of now2 rnd2])
qed

theorem update_determined_by_inputs_witness:
  "zeroDraws 0 = lateDraws 0 \<and> zeroDraws 1 = lateDraws 1 \<and> zeroDraws 2 = lateDraws 2
   \<and> zeroDraws 3 = lateDraws 3 \<and> zeroDraws 4 \<noteq> lateDraws 4
   \<and> update (setEmission (constructor 300 100) 260) 0.004 0 zeroDraws
       = update (setEmission (constructor 300 100) 260) 0.004 0 lateDraws
   \<and> isDraining (startDraining filledScene)
   \<and> update (startDraining filledScene) 0.016 0 zeroDraws
       = (update (startDraining filledScene) 0.016 1000 halfDraws)
           \<lparr>streamX := streamX (update (startDraining filledScene) 0.016 0 zeroDraws)\<rparr>"
proof -
  let ?s = "setEmission (constructor 300 100) 260"
  have v: "dropSpawnAccumulator ?s + dropsPerSecond * clampDt 0.004 = 26 / 25"
    by (simp add: setEmission_def constructor_fields dropsPerSecond_def clampDt_def)
  have "\<lfloor>dropSpawnAccumulator ?s + dropsPerSecond * clampDt 0.004\<rfloor> = 1"
    unfolding v by (rule floor_unique) simp_all
  then have n: "4 * nat \<lfloor>dropSpawnAccumulator ?s + dropsPerSecond * clampDt 0.004\<rfloor> = 4"
    by simp
  have agree: "\<forall>k < 4 * nat \<lfloor>dropSpawnAccumulator ?s + dropsPerSecond * clampDt 0.004\<rfloor>.
                 zeroDraws k = lateDraws k"
    unfolding n by (simp add: zeroDraws_def lateDraws_def)
  have d: "isDraining (startDraining filledScene)" by (simp add: startDraining_def)
  have "update ?s 0.004 0 zeroDraws = update ?s 0.004 0 lateDraws"
    using update_determined_by_inputs
            [where s = ?s and dT = "0.004" and ?rnd1.0 = zeroDraws and ?rnd2.0 = lateDraws
               and now = 0]
          agree
    by blast
  moreover have "update (startDraining filledScene) 0.016 0 zeroDraws
       = (update (startDraining filledScene) 0.016 1000 halfDraws)
           \<lparr>streamX := streamX (update (startDraining filledScene) 0.016 0 zeroDraws)\<rparr>"
    using update_determined_by_inputs
            [where s = "startDraining filledScene" and dT = "0.016" and ?rnd1.0 = zeroDraws
               and ?rnd2.0 = halfDraws and ?now1.0 = 0 and ?now2.0 = 1000]
          d
    by blast
  ultimately show ?thesis using d by (simp add: zeroDraws_def lateDraws_def)
qed

lemma spawnDroplet_new:
  assumes "length (droplets s) < maxDroplets"
  shows "\<exists>d. droplets (fst (spawnDroplet rnd (s, k))) = droplets s @ [d]
             \<and> d_y d = - 12 - rnd (k + 2) * 40 \<and> d_vy d = 0
             \<and> 3 / 2 \<le> d_r d \<and> d_r d \<le> 11 / 2"
proof -
  have no: "\<not> maxDroplets \<le> length (droplets s)" using assms by simp
  have sel: "droplets (t\<lparr>droplets := a\<rparr>) = a" for t :: state and a
    by simp
  show ?thesis
    unfolding spawnDroplet_def Let_def fst_conv snd_conv if_not_P[OF no] sel
    by (rule exI, intro conjI, rule refl) simp_all
qed

text \<open>
  The emission of exactly one droplet into an empty list: its height and radius.
\<close>

lemma emit_one:
  assumes on: "\<not> isDraining s" "\<not> whirlpoolActive s" "0 < volumePerSecond s"
    and empty: "droplets s = []"
    and acc: "1 \<le> dropSpawnAccumulator s + dropsPerSecond * dt"
             "dropSpawnAccumulator s + dropsPerSecond * dt < 2"
  shows "\<exists>d. droplets (emitDroplets dt rnd (updateStream now s)) = [d]
             \<and> d_y d = - 12 - rnd 2 * 40 \<and> d_vy d = 0 \<and> 3 / 2 \<le> d_r d \<and> d_r d \<le> 11 / 2"
proof -
  let ?s1 = "updateStream now s"
  let ?s0 = "?s1\<lparr>dropSpawnAccumulator := dropSpawnAccumulator ?s1 + dropsPerSecond * dt\<rparr>"
  have f: "\<not> isDraining ?s1" "\<not> whirlpoolActive ?s1" "0 < volumePerSecond ?s1"
    "droplets ?s1 = []" "dropSpawnAccumulator ?s1 = dropSpawnAccumulator s"
    using on empty by (simp_all add: phase_frames)
  have "emitDroplets dt rnd ?s1 = fst (spawnLoop rnd (?s0, 0))"
    using f by (simp add: emitDroplets_def)
  also have "spawnLoop rnd (?s0, 0) =
      (fst (spawnDroplet rnd (?s0, 0))\<lparr>dropSpawnAccumulator := dropSpawnAccumulator ?s0 - 1\<rparr>,
       snd (spawnDroplet rnd (?s0, 0)))"
    by (rule spawnLoop_once) (simp_all add: f acc)
  finally have "droplets (emitDroplets dt rnd ?s1) = droplets (fst (spawnDroplet rnd (?s0, 0)))"
    by simp
  then show ?thesis
    using spawnDroplet_new[of ?s0 rnd 0] by (simp add: f maxDroplets_def numeral_2_eq_2)
qed

text \<open>
  The claim as stated fails because \<^verbatim>\<open>update\<close> reads \<^verbatim>\<open>Math.random()\<close>: from the
  same state (a scene 300 wide with the emission rate 260), with the same timestep
  0.004 and the same clock reading, the droplet emitted starts at height -12 when
  every draw is 0 and at height -32 when every draw is one half.
\<close>

theorem random_draws_counterexample:
  "map d_py (droplets (update (setEmission (constructor 300 100) 260) 0.004 0 zeroDraws))
     = [- 12]
   \<and> map d_py (droplets (update (setEmission (constructor 300 100) 260) 0.004 0 halfDraws))
     = [- 32]"
proof -
  let ?s = "setEmission (constructor 300 100) 260"
  have c: "clampDt 0.004 = 0.004" by (simp add: clampDt_def)
  have f: "width ?s = 300" "height ?s = 100" "\<not> isDraining ?s" "\<not> whirlpoolActive ?s"
      "waterVolume ?s = 0" "targetFillHeight ?s = 0" "surf_h ?s = surf_h (constructor 300 100)"
      "volumePerSecond ?s = 260" "droplets ?s = []" "dropSpawnAccumulator ?s = 0"
    by (simp_all add: setEmission_def constructor_fields)
  have base: "getBaseSurfaceY ?s = 100"
    by (simp add: getBaseSurfaceY_def getWaterHeight_def f)
  have one: "map d_py (droplets (update ?s 0.004 0 rnd)) = [- 12 - rnd 2 * 40]"
    if rnd: "0 \<le> rnd 2" for rnd
  proof -
    obtain d where d: "droplets (emitDroplets (clampDt 0.004) rnd (updateStream 0 ?s)) = [d]"
        "d_y d = - 12 - rnd 2 * 40" "d_vy d = 0" "3 / 2 \<le> d_r d" "d_r d \<le> 11 / 2"
      using emit_one[of ?s "clampDt 0.004" rnd 0] unfolding c
      by (auto simp: f dropsPerSecond_def)
    have "droplets (update ?s 0.004 0 rnd) = [stepDroplet (clampDt 0.004) (width ?s) d]"
    proof (rule update_lone_droplet_stays)
      show "droplets (emitDroplets (clampDt 0.004) rnd (updateStream 0 ?s)) = [d]" by (rule d)
      show "set (surf_h ?s) \<subseteq> {0}" by (simp add: f constructor_flat)
      show "\<not> isDraining ?s \<or> drainRate ?s \<le> 0" by (simp add: f)
      show "d_y (stepDroplet (clampDt 0.004) (width ?s) d)
              + d_r (stepDroplet (clampDt 0.004) (width ?s) d) < getBaseSurfaceY ?s"
        unfolding c base stepDroplet_y stepDroplet_r using d rnd
        by (simp add: gravity_def airDrag_def)
      show "d_y (stepDroplet (clampDt 0.004) (width ?s) d) \<le> height ?s + 120"
        unfolding c stepDroplet_y using d rnd
        by (simp add: gravity_def airDrag_def constructor_fields setEmission_def)
    qed
    then show ?thesis by (simp add: stepDroplet_py d)
  qed
  show ?thesis
    using one[of zeroDraws] one[of halfDraws] by (simp add: zeroDraws_def halfDraws_def)
qed

end
